theory Spec2Isabelle
  imports Complex_Main "HOL-Library.Word" "HOL-Library.Log_Nat"
begin

section \<open>The now-playing LCD renderer (src/src/renderer.js)\<close>

text \<open>
  A shallow embedding of the class \<open>NowPlayingRenderer\<close> and of the helper \<open>escapeXml\<close>.

  \<^item> A JavaScript string is a sequence of UTF-16 code units, and \<open>.length\<close>,
    \<open>substring\<close>, \<open>split\<close> and \<open>replace\<close> work on code units: a string is a
    \<open>16 word list\<close>. A source literal is written \<open>js ''...''\<close>.
  \<^item> A JavaScript number that is a pixel coordinate or a character count is an \<open>int\<close>.
    The two playback times are finite numbers, given by their value as a \<open>rat\<close>, with
    \<open>None\<close> for an absent (\<open>undefined\<close>) field; a time that is \<open>NaN\<close> or infinite on
    entry is not modelled. The arithmetic on them is that of IEEE 754 double precision:
    every quotient and product is rounded to the nearest double, a tie to the even
    significand, with gradual underflow and with overflow to an infinity.
  \<^item> A thrown exception or a rejected promise is the left injection of a sum type.
  \<^item> The image library \<open>sharp\<close> and Node's \<open>Buffer\<close> base64 codec are not part of
    the repository: they are the fields of a record \<open>backend\<close> that every rendering
    function takes as its first argument.
  \<^item> \<open>console.error\<close> logging is left out.
\<close>

subsection \<open>Strings\<close>

type_synonym jschar = "16 word"
type_synonym jsstring = "jschar list"

definition js :: "string \<Rightarrow> jsstring" where
  "js s = map (\<lambda>c. of_nat (of_char c)) s"

definition chr_amp :: jschar where "chr_amp = 0x26"
definition chr_lt :: jschar where "chr_lt = 0x3C"
definition chr_gt :: jschar where "chr_gt = 0x3E"
definition chr_quot :: jschar where "chr_quot = 0x22"
definition chr_apos :: jschar where "chr_apos = 0x27"
definition chr_comma :: jschar where "chr_comma = 0x2C"
definition chr_minus :: jschar where "chr_minus = 0x2D"

text \<open>\<open>text.substring(0, n)\<close>: a negative end is taken as 0, one beyond the end as the length.\<close>

definition substring0 :: "jsstring \<Rightarrow> int \<Rightarrow> jsstring" where
  "substring0 text n = take (nat n) text"

text \<open>\<open>str.replace(/c/g, r)\<close> for a single code unit \<open>c\<close>: every occurrence, left to right.\<close>

definition replaceAll :: "jschar \<Rightarrow> jsstring \<Rightarrow> jsstring \<Rightarrow> jsstring" where
  "replaceAll c r str = concat (map (\<lambda>x. if x = c then r else [x]) str)"

text \<open>\<open>arr.join(sep)\<close>: a \<open>null\<close> or \<open>undefined\<close> element (\<open>None\<close>) is joined as the empty string.\<close>

fun join :: "jsstring \<Rightarrow> jsstring option list \<Rightarrow> jsstring" where
  "join sep [] = []"
| "join sep [x] = (case x of None \<Rightarrow> [] | Some s \<Rightarrow> s)"
| "join sep (x # y # ys) = (case x of None \<Rightarrow> [] | Some s \<Rightarrow> s) @ sep @ join sep (y # ys)"

text \<open>\<open>str.split(',')\<close>: the segments between the separators, at least one.\<close>

fun split :: "jschar \<Rightarrow> jsstring \<Rightarrow> jsstring list" where
  "split sep [] = [[]]"
| "split sep (c # cs) =
     (if c = sep then [] # split sep cs
      else (case split sep cs of [] \<Rightarrow> [[c]] | seg # segs \<Rightarrow> (c # seg) # segs))"

text \<open>\<open>str.startsWith(p)\<close>.\<close>

definition startsWith :: "jsstring \<Rightarrow> jsstring \<Rightarrow> bool" where
  "startsWith str p = (take (length p) str = p)"

text \<open>
  The decimal text that a template literal \<open>${n}\<close> gives for an integer (one below
  \<open>10\<^sup>2\<^sup>1\<close> in size, beyond which JavaScript prints an exponent).
\<close>

definition digit :: "nat \<Rightarrow> jschar" where
  "digit d = of_nat (48 + d)"

fun digits :: "nat \<Rightarrow> jsstring" where
  "digits n = (if n < 10 then [digit n] else digits (n div 10) @ [digit (n mod 10)])"

declare digits.simps [simp del]

definition show_int :: "int \<Rightarrow> jsstring" where
  "show_int i = (if i < 0 then chr_minus # digits (nat (- i)) else digits (nat i))"

subsection \<open>The track information handed to the renderer\<close>

text \<open>
  \<open>artist\<close> is read through \<open>Array.isArray\<close>: it is an array of names, a single string,
  or absent.
\<close>

datatype artist_value = ArtistAbsent | ArtistString jsstring | ArtistArray "jsstring option list"

record trackInfo =
  trackName :: "jsstring option"
  artist :: artist_value
  album :: "jsstring option"
  thumbnail :: "jsstring option"
  duration :: "rat option"
  position :: "rat option"

subsection \<open>The runtime and the image library\<close>

datatype error = TypeError | SharpError

type_synonym buffer = "8 word list"

record layer =
  input :: buffer
  left_px :: int
  top_px :: int

record region =
  ex_left :: int
  ex_top :: int
  ex_width :: int
  ex_height :: int

text \<open>
  \<^item> \<open>bufferFromString s\<close> is \<open>Buffer.from(s)\<close>, \<open>bufferFromBase64 s\<close> is
    \<open>Buffer.from(s, 'base64')\<close>, \<open>toBase64 b\<close> is \<open>b.toString('base64')\<close>;
  \<^item> \<open>resizeCoverPng b w h\<close> is
    \<open>sharp(b).resize(w, h, {fit: 'cover', position: 'center'}).png().toBuffer()\<close>;
  \<^item> \<open>createCompositePng w h ls\<close> is \<open>sharp({create: {width: w, height: h, channels: 3,
    background: {r: 0, g: 0, b: 0}}}).composite(ls).png().toBuffer()\<close>;
  \<^item> \<open>extractPng b r\<close> is \<open>sharp(b).extract(r).png().toBuffer()\<close>;
  \<^item> \<open>toPng b\<close> is \<open>sharp(b).png().toBuffer()\<close>.

  Each call of \<open>sharp\<close> may reject.
\<close>

record backend =
  bufferFromString :: "jsstring \<Rightarrow> buffer"
  bufferFromBase64 :: "jsstring \<Rightarrow> buffer"
  toBase64 :: "buffer \<Rightarrow> jsstring"
  resizeCoverPng :: "buffer \<Rightarrow> int \<Rightarrow> int \<Rightarrow> error + buffer"
  createCompositePng :: "int \<Rightarrow> int \<Rightarrow> layer list \<Rightarrow> error + buffer"
  extractPng :: "buffer \<Rightarrow> region \<Rightarrow> error + buffer"
  toPng :: "buffer \<Rightarrow> error + buffer"

subsection \<open>escapeXml\<close>

definition escapeXml :: "jsstring \<Rightarrow> jsstring" where
  \<open>escapeXml str =
     (if str = [] then []
      else replaceAll chr_apos (js ''&#39;'')
            (replaceAll chr_quot (js ''&quot;'')
              (replaceAll chr_gt (js ''&gt;'')
                (replaceAll chr_lt (js ''&lt;'')
                  (replaceAll chr_amp (js ''&amp;'') str)))))\<close>

subsection \<open>buildTextSvg\<close>

text \<open>The local closure \<open>truncate(text, maxChars = 45)\<close>.\<close>

definition truncate :: "jsstring \<Rightarrow> int \<Rightarrow> jsstring" where
  "truncate text maxChars =
     (if int (length text) > maxChars then substring0 text (maxChars - 3) @ js ''...'' else text)"

text \<open>\<open>trackInfo.trackName || 'Unknown Track'\<close>: an absent or empty name is falsy.\<close>

definition title_of :: "trackInfo \<Rightarrow> jsstring" where
  "title_of t =
     (case trackName t of
        None \<Rightarrow> js ''Unknown Track''
      | Some s \<Rightarrow> if s = [] then js ''Unknown Track'' else s)"

text \<open>
  \<open>Array.isArray(trackInfo.artist) ? trackInfo.artist.join(', ')
     : (trackInfo.artist || 'Unknown Artist')\<close>.
\<close>

definition artist_of :: "trackInfo \<Rightarrow> jsstring" where
  "artist_of t =
     (case artist t of
        ArtistArray names \<Rightarrow> join (js '', '') names
      | ArtistString s \<Rightarrow> if s = [] then js ''Unknown Artist'' else s
      | ArtistAbsent \<Rightarrow> js ''Unknown Artist'')"

text \<open>The second argument \<open>maxWidth\<close> is not used by the source.\<close>

definition buildTextSvg :: "trackInfo \<Rightarrow> int \<Rightarrow> jsstring" where
  \<open>buildTextSvg t maxWidth =
     js ''\<newline>    <svg width="280" height="100" xmlns="http://www.w3.org/2000/svg">\<newline>''
     @ js ''      <style>\<newline>''
     @ js ''        .title { font-family: Arial, sans-serif; font-size: 20px; font-weight: normal; fill: white; }\<newline>''
     @ js ''        .artist { font-family: Arial, sans-serif; font-size: 16px; fill: #B3B3B3; }\<newline>''
     @ js ''      </style>\<newline>''
     @ js ''      <text x="0" y="27" class="title">'' @ escapeXml (truncate (title_of t) 28)
     @ js ''</text>\<newline>''
     @ js ''      <text x="0" y="55" class="artist">'' @ escapeXml (truncate (artist_of t) 32)
     @ js ''</text>\<newline>''
     @ js ''    </svg>\<newline>    ''\<close>

subsection \<open>createProgressBar\<close>

text \<open>
  Double precision. \<open>ilog2 x\<close> is the binary exponent of a positive \<open>x\<close>, the \<open>e\<close>
  with \<open>2\<^sup>e \<le> x < 2\<^sup>e\<^sup>+\<^sup>1\<close>. A double near \<open>x\<close> is a multiple of
  \<open>2 powi ulp_exponent x\<close>: 53 significant bits, and no exponent below that of the
  subnormal numbers. \<open>round_double\<close> rounds to the nearest such multiple, a tie to the
  even one; \<open>to_double\<close> gives an infinity when the rounded value is beyond the largest
  double. The two zeros are not told apart: no quotient below is taken by a result, and
  both print as \<open>0\<close>.
\<close>

definition ilog2 :: "rat \<Rightarrow> int" where
  "ilog2 x =
     (let (p, q) = quotient_of x;
          k = int (floorlog 2 (nat p)) - int (floorlog 2 (nat q))
      in if 2 powi k \<le> x then k else k - 1)"

definition round_half_even :: "rat \<Rightarrow> int" where
  "round_half_even x =
     (let f = \<lfloor>x\<rfloor>; r = x - of_int f
      in if r < 1 / 2 then f else if 1 / 2 < r then f + 1 else if even f then f else f + 1)"

definition ulp_exponent :: "rat \<Rightarrow> int" where
  "ulp_exponent x = max (ilog2 \<bar>x\<bar> - 52) (- 1074)"

definition round_double :: "rat \<Rightarrow> rat" where
  "round_double x =
     (if x = 0 then 0
      else of_int (round_half_even (x / 2 powi ulp_exponent x)) * 2 powi ulp_exponent x)"

datatype jsnum = Finite rat | PosInfinity | NegInfinity | NaN

definition to_double :: "rat \<Rightarrow> jsnum" where
  "to_double x =
     (let y = round_double x
      in if 2 ^ 1024 \<le> y then PosInfinity
         else if y \<le> - (2 ^ 1024) then NegInfinity
         else Finite y)"

text \<open>\<open>x * w\<close> for a whole number \<open>w\<close>.\<close>

definition js_times :: "jsnum \<Rightarrow> int \<Rightarrow> jsnum" where
  "js_times x w =
     (case x of
        Finite r \<Rightarrow> to_double (r * of_int w)
      | PosInfinity \<Rightarrow> if 0 < w then PosInfinity else if w < 0 then NegInfinity else NaN
      | NegInfinity \<Rightarrow> if 0 < w then NegInfinity else if w < 0 then PosInfinity else NaN
      | NaN \<Rightarrow> NaN)"

text \<open>
  \<open>Math.round\<close> gives the nearest integer, a half upwards, exactly; an infinity and
  \<open>NaN\<close> are returned as they are.
\<close>

datatype rounded = NotANumber | Whole int | PlusInfinity | MinusInfinity

definition math_round :: "jsnum \<Rightarrow> rounded" where
  "math_round x =
     (case x of
        Finite r \<Rightarrow> Whole \<lfloor>r + 1 / 2\<rfloor>
      | PosInfinity \<Rightarrow> PlusInfinity
      | NegInfinity \<Rightarrow> MinusInfinity
      | NaN \<Rightarrow> NotANumber)"

text \<open>
  \<open>Math.round((currentTime / duration) * barWidth)\<close> for a duration that is present and
  not zero. An absent \<open>currentTime\<close> makes the quotient \<open>NaN\<close>.
\<close>

definition progressWidth :: "rat \<Rightarrow> rat option \<Rightarrow> int \<Rightarrow> rounded" where
  "progressWidth d currentTime barWidth =
     (case currentTime of
        None \<Rightarrow> NotANumber
      | Some c \<Rightarrow> math_round (js_times (to_double (c / d)) barWidth))"

text \<open>
  Both rectangles of the bar are written with the same template text,
  \<open><rect x="${barX}" y="${barY}" width="${w}" height="${barHeight}" rx="${radius}" fill="${colour}"/>\<close>,
  with \<open>barHeight = 5\<close> and \<open>radius = 1\<close>. \<open>bar_rect_text\<close> takes the width as
  it is printed, \<open>bar_rect\<close> as a whole number.
\<close>

definition bar_rect_text :: "int \<Rightarrow> int \<Rightarrow> jsstring \<Rightarrow> jsstring \<Rightarrow> jsstring" where
  \<open>bar_rect_text barX barY w colour =
     js ''<rect x="'' @ show_int barX @ js ''" y="'' @ show_int barY
     @ js ''" width="'' @ w @ js ''" height="'' @ show_int 5
     @ js ''" rx="'' @ show_int 1 @ js ''" fill="'' @ colour @ js ''"/>''\<close>

definition bar_rect :: "int \<Rightarrow> int \<Rightarrow> int \<Rightarrow> jsstring \<Rightarrow> jsstring" where
  "bar_rect barX barY w colour = bar_rect_text barX barY (show_int w) colour"

definition bgColor :: jsstring where "bgColor = js ''#404040''"
definition fillColor :: jsstring where "fillColor = js ''#1DB954''"

definition createProgressBar ::
  "rat option \<Rightarrow> rat option \<Rightarrow> int \<Rightarrow> int \<Rightarrow> int \<Rightarrow> jsstring" where
  \<open>createProgressBar dur currentTime barWidth barX barY =
     (case dur of
        None \<Rightarrow>
          js ''\<newline>        <svg width="400" height="100" xmlns="http://www.w3.org/2000/svg">\<newline>''
          @ js ''          '' @ bar_rect barX barY barWidth bgColor @ js ''\<newline>''
          @ js ''        </svg>\<newline>      ''
      | Some d \<Rightarrow>
          if d = 0 then
            js ''\<newline>        <svg width="400" height="100" xmlns="http://www.w3.org/2000/svg">\<newline>''
            @ js ''          '' @ bar_rect barX barY barWidth bgColor @ js ''\<newline>''
            @ js ''        </svg>\<newline>      ''
          else
            js ''\<newline>      <svg width="400" height="100" xmlns="http://www.w3.org/2000/svg">\<newline>''
            @ js ''        '' @ bar_rect barX barY barWidth bgColor @ js ''\<newline>''
            @ js ''        ''
            @ (case progressWidth d currentTime barWidth of
                 NotANumber \<Rightarrow> []
               | Whole w \<Rightarrow> if w > 0 then bar_rect barX barY w fillColor else []
               | PlusInfinity \<Rightarrow> bar_rect_text barX barY (js ''Infinity'') fillColor
               | MinusInfinity \<Rightarrow> [])
            @ js ''\<newline>''
            @ js ''      </svg>\<newline>    '')\<close>

subsection \<open>The constructor's constants\<close>

definition fullWidth :: int where "fullWidth = 400"
definition dialWidth :: int where "dialWidth = 200"
definition lcdHeight :: int where "lcdHeight = 100"
definition artworkSize :: int where "artworkSize = 100"
definition padding :: int where "padding = 8"

subsection \<open>extractBase64FromDataUrl\<close>

text \<open>
  \<open>None\<close> is a \<open>null\<close> or \<open>undefined\<close> argument. \<open>dataUrl.split(',')[1]\<close> is
  \<open>undefined\<close> when the text has no comma, and \<open>Buffer.from(undefined, 'base64')\<close>
  throws a \<open>TypeError\<close>.
\<close>

definition extractBase64FromDataUrl :: "backend \<Rightarrow> jsstring option \<Rightarrow> error + buffer option" where
  "extractBase64FromDataUrl be dataUrl =
     (case dataUrl of
        None \<Rightarrow> Inr None
      | Some s \<Rightarrow>
          if s = [] then Inr None
          else if startsWith s (js ''data:'') then
            (case split chr_comma s of
               _ # base64 # _ \<Rightarrow> Inr (Some (bufferFromBase64 be base64))
             | _ \<Rightarrow> Inl TypeError)
          else Inr (Some (bufferFromBase64 be s)))"

subsection \<open>createFallback\<close>

text \<open>
  A default parameter value replaces an omitted (\<open>undefined\<close>) argument only: the
  \<open>position\<close> argument of the three entry points is a \<open>jsstring option\<close>, \<open>None\<close> for
  an omitted one.
\<close>

definition position_or_left :: "jsstring option \<Rightarrow> jsstring" where
  "position_or_left pos = (case pos of None \<Rightarrow> js ''left'' | Some p \<Rightarrow> p)"

text \<open>The three code units of the source's message literal for the left dial.\<close>

definition fallback_message :: "jsstring \<Rightarrow> jsstring" where
  "fallback_message p = (if p = js ''left'' then [0xE2, 0x2122, 0xAA] else js ''No Track'')"

definition fallbackSvg :: "jsstring \<Rightarrow> jsstring" where
  \<open>fallbackSvg p =
     js ''\<newline>    <svg width="200" height="100" xmlns="http://www.w3.org/2000/svg">\<newline>''
     @ js ''      <rect width="200" height="100" fill="black"/>\<newline>''
     @ js ''      <text x="100" y="55" font-family="Arial" font-size="''
     @ (if p = js ''left'' then js ''40'' else js ''14'')
     @ js ''" fill="#666666" text-anchor="middle">\<newline>''
     @ js ''        '' @ fallback_message p @ js ''\<newline>''
     @ js ''      </text>\<newline>''
     @ js ''    </svg>\<newline>    ''\<close>

definition png_data_url :: "backend \<Rightarrow> buffer \<Rightarrow> jsstring" where
  "png_data_url be b = js ''data:image/png;base64,'' @ toBase64 be b"

definition createFallback :: "backend \<Rightarrow> jsstring option \<Rightarrow> error + jsstring" where
  "createFallback be pos =
     (case toPng be (bufferFromString be (fallbackSvg (position_or_left pos))) of
        Inl e \<Rightarrow> Inl e
      | Inr result \<Rightarrow> Inr (png_data_url be result))"

subsection \<open>render\<close>

text \<open>
  The inner \<open>try\<close> around the album art: what it pushes onto \<open>composite\<close>. Its
  \<open>catch\<close> only logs, so an exception of the extractor or of \<open>sharp\<close> leaves the list
  as it was.
\<close>

definition art_layers :: "backend \<Rightarrow> trackInfo \<Rightarrow> layer list" where
  "art_layers be t =
     (case thumbnail t of
        None \<Rightarrow> []
      | Some th \<Rightarrow>
          if th = [] then []
          else (case extractBase64FromDataUrl be (Some th) of
                  Inl e \<Rightarrow> []
                | Inr None \<Rightarrow> []
                | Inr (Some artBuffer) \<Rightarrow>
                    (case resizeCoverPng be artBuffer artworkSize artworkSize of
                       Inl e \<Rightarrow> []
                     | Inr albumArtBuffer \<Rightarrow>
                         [\<lparr>input = albumArtBuffer, left_px = 0, top_px = 0\<rparr>])))"

text \<open>The list \<open>composite\<close> when the canvas is created.\<close>

definition composite_layers :: "backend \<Rightarrow> trackInfo \<Rightarrow> layer list" where
  "composite_layers be t =
     (let textX = 100 + padding;
          textAreaWidth = fullWidth - textX - padding;
          barX = textX;
          barY = 75;
          barWidth = textAreaWidth - padding
      in art_layers be t
         @ [\<lparr>input = bufferFromString be (buildTextSvg t textAreaWidth),
              left_px = textX, top_px = 0\<rparr>]
         @ [\<lparr>input = bufferFromString be
                (createProgressBar (duration t) (position t) barWidth barX barY),
              left_px = 0, top_px = 0\<rparr>])"

text \<open>The argument of \<open>extract\<close>, with \<open>cropX = position === 'left' ? 0 : this.dialWidth\<close>.\<close>

definition crop_region :: "jsstring \<Rightarrow> region" where
  "crop_region p =
     \<lparr>ex_left = (if p = js ''left'' then 0 else dialWidth), ex_top = 0,
      ex_width = dialWidth, ex_height = lcdHeight\<rparr>"

text \<open>
  The body of the outer \<open>try\<close>. \<open>None\<close> is a \<open>null\<close> or \<open>undefined\<close> track, on which
  reading \<open>trackInfo.thumbnail\<close> throws.
\<close>

definition render_try :: "backend \<Rightarrow> trackInfo option \<Rightarrow> jsstring \<Rightarrow> error + jsstring" where
  "render_try be trackInfo p =
     (case trackInfo of
        None \<Rightarrow> Inl TypeError
      | Some t \<Rightarrow>
          (case createCompositePng be fullWidth lcdHeight (composite_layers be t) of
             Inl e \<Rightarrow> Inl e
           | Inr fullCanvas \<Rightarrow>
               (case extractPng be fullCanvas (crop_region p) of
                  Inl e \<Rightarrow> Inl e
                | Inr croppedImage \<Rightarrow> Inr (png_data_url be croppedImage))))"

definition render :: "backend \<Rightarrow> trackInfo option \<Rightarrow> jsstring option \<Rightarrow> error + jsstring" where
  "render be trackInfo pos =
     (case render_try be trackInfo (position_or_left pos) of
        Inr img \<Rightarrow> Inr img
      | Inl e \<Rightarrow> createFallback be (Some (position_or_left pos)))"

subsection \<open>createBlank\<close>

definition darkArtSvg :: jsstring where
  \<open>darkArtSvg =
     js ''\<newline>      <svg width="100" height="100" xmlns="http://www.w3.org/2000/svg">\<newline>''
     @ js ''        <rect width="100" height="100" fill="#1a1a1a"/>\<newline>''
     @ js ''        <!-- Pause icon overlay -->\<newline>''
     @ js ''        <rect x="35" y="35" width="10" height="30" fill="white" opacity="0.6"/>\<newline>''
     @ js ''        <rect x="55" y="35" width="10" height="30" fill="white" opacity="0.6"/>\<newline>''
     @ js ''      </svg>\<newline>      ''\<close>

definition blankTextSvg :: "int \<Rightarrow> int \<Rightarrow> int \<Rightarrow> jsstring" where
  \<open>blankTextSvg textX barX barWidth =
     js ''\<newline>      <svg width="400" height="100" xmlns="http://www.w3.org/2000/svg">\<newline>''
     @ js ''        <style>\<newline>''
     @ js ''          .title { font-family: Arial, sans-serif; font-size: 20px; font-weight: normal; fill: white; }\<newline>''
     @ js ''          .artist { font-family: Arial, sans-serif; font-size: 16px; fill: #B3B3B3; }\<newline>''
     @ js ''        </style>\<newline>''
     @ js ''        <text x="'' @ show_int textX @ js ''" y="27" class="title">No track playing</text>\<newline>''
     @ js ''        <text x="'' @ show_int textX @ js ''" y="55" class="artist">Start playing music</text>\<newline>''
     @ js ''        <!-- Empty progress bar background -->\<newline>''
     @ js ''        <rect x="'' @ show_int barX @ js ''" y="75" width="'' @ show_int barWidth
     @ js ''" height="5" rx="1" fill="#404040"/>\<newline>''
     @ js ''      </svg>\<newline>      ''\<close>

definition blackSvg :: jsstring where
  \<open>blackSvg =
     js ''\<newline>      <svg width="200" height="100" xmlns="http://www.w3.org/2000/svg">\<newline>''
     @ js ''        <rect width="200" height="100" fill="black"/>\<newline>''
     @ js ''      </svg>\<newline>      ''\<close>

definition blank_layers :: "backend \<Rightarrow> layer list" where
  "blank_layers be =
     (let textX = 100 + padding;
          textAreaWidth = fullWidth - textX - padding;
          barX = textX;
          barWidth = textAreaWidth - padding
      in [\<lparr>input = bufferFromString be darkArtSvg, left_px = 0, top_px = 0\<rparr>]
         @ [\<lparr>input = bufferFromString be (blankTextSvg textX barX barWidth),
              left_px = 0, top_px = 0\<rparr>])"

definition createBlank_try :: "backend \<Rightarrow> jsstring \<Rightarrow> error + jsstring" where
  "createBlank_try be p =
     (case createCompositePng be fullWidth lcdHeight (blank_layers be) of
        Inl e \<Rightarrow> Inl e
      | Inr fullCanvas \<Rightarrow>
          (case extractPng be fullCanvas (crop_region p) of
             Inl e \<Rightarrow> Inl e
           | Inr croppedImage \<Rightarrow> Inr (png_data_url be croppedImage)))"

definition createBlank :: "backend \<Rightarrow> jsstring option \<Rightarrow> error + jsstring" where
  "createBlank be pos =
     (case createBlank_try be (position_or_left pos) of
        Inr img \<Rightarrow> Inr img
      | Inl e \<Rightarrow>
          (case toPng be (bufferFromString be blackSvg) of
             Inl e' \<Rightarrow> Inl e'
           | Inr result \<Rightarrow> Inr (png_data_url be result)))"

section \<open>Notions used to state the properties\<close>

subsection \<open>The tags of a piece of markup\<close>

text \<open>
  \<open>scan_tags\<close> reads markup from left to right and returns every tag, from a \<open><\<close> to
  the next \<open>>\<close>, in order; text outside tags is skipped. The first argument is the tag
  being read, if any.
\<close>

fun scan_tags :: "jsstring option \<Rightarrow> jsstring \<Rightarrow> jsstring list" where
  "scan_tags None [] = []"
| "scan_tags (Some acc) [] = [acc]"
| "scan_tags None (c # cs) =
     (if c = chr_lt then scan_tags (Some [c]) cs else scan_tags None cs)"
| "scan_tags (Some acc) (c # cs) =
     (if c = chr_gt then (acc @ [c]) # scan_tags None cs else scan_tags (Some (acc @ [c])) cs)"

definition tags :: "jsstring \<Rightarrow> jsstring list" where
  "tags markup = scan_tags None markup"

text \<open>
  \<open>nodes\<close> reads the same way and keeps the text as well: the result alternates
  between the text outside tags (possibly empty) and the tags, starting and ending with a
  text.
\<close>

datatype node = Tag jsstring | Text jsstring

fun scan_nodes :: "bool \<Rightarrow> jsstring \<Rightarrow> jsstring \<Rightarrow> node list" where
  "scan_nodes False acc [] = [Text acc]"
| "scan_nodes True acc [] = [Tag acc]"
| "scan_nodes False acc (c # cs) =
     (if c = chr_lt then Text acc # scan_nodes True [c] cs else scan_nodes False (acc @ [c]) cs)"
| "scan_nodes True acc (c # cs) =
     (if c = chr_gt then Tag (acc @ [c]) # scan_nodes False [] cs
      else scan_nodes True (acc @ [c]) cs)"

definition nodes :: "jsstring \<Rightarrow> node list" where
  "nodes markup = scan_nodes False [] markup"

subsection \<open>Escaping, one code unit at a time\<close>

definition escape_char :: "jschar \<Rightarrow> jsstring" where
  \<open>escape_char c =
     (if c = chr_amp then js ''&amp;''
      else if c = chr_lt then js ''&lt;''
      else if c = chr_gt then js ''&gt;''
      else if c = chr_quot then js ''&quot;''
      else if c = chr_apos then js ''&#39;''
      else [c])\<close>

text \<open>
  \<open>amps_start_entities str\<close>: every ampersand of \<open>str\<close> is the first code unit of one of
  the five entities that \<open>escapeXml\<close> writes.
\<close>

definition entities :: "jsstring list" where
  \<open>entities = [js ''&amp;'', js ''&lt;'', js ''&gt;'', js ''&quot;'', js ''&#39;'']\<close>

fun amps_start_entities :: "jsstring \<Rightarrow> bool" where
  "amps_start_entities [] = True"
| "amps_start_entities (c # cs) =
     ((c \<noteq> chr_amp \<or> list_ex (startsWith (c # cs)) entities) \<and> amps_start_entities cs)"

text \<open>
  A text of a piece of markup is escaped when it has no angle bracket and no quote and
  each of its ampersands begins an entity.
\<close>

definition well_escaped :: "jsstring \<Rightarrow> bool" where
  "well_escaped x =
     (chr_lt \<notin> set x \<and> chr_gt \<notin> set x \<and> chr_quot \<notin> set x \<and> chr_apos \<notin> set x
      \<and> amps_start_entities x)"

fun text_escaped :: "node \<Rightarrow> bool" where
  "text_escaped (Text x) = well_escaped x"
| "text_escaped (Tag x) = True"

subsection \<open>The fill width as the specification words it\<close>

text \<open>
  \<open>round(barWidth * clamp(position/duration, 0, 1))\<close>, in the same arithmetic as the
  source's.
\<close>

definition clamp01 :: "jsnum \<Rightarrow> jsnum" where
  "clamp01 x =
     (case x of
        Finite r \<Rightarrow> Finite (max 0 (min 1 r))
      | PosInfinity \<Rightarrow> Finite 1
      | NegInfinity \<Rightarrow> Finite 0
      | NaN \<Rightarrow> NaN)"

definition spec_fill_width :: "rat \<Rightarrow> rat \<Rightarrow> int \<Rightarrow> rounded" where
  "spec_fill_width d p barWidth = math_round (js_times (clamp01 (to_double (p / d))) barWidth)"

subsection \<open>Two sample runtimes\<close>

text \<open>
  Concrete values of \<open>backend\<close> on which the functions above can be run. \<open>stub_backend\<close>
  has Node's base64 codec (the decoder reads the low byte of each code unit, skips one
  outside the alphabet and stops at \<open>=\<close>) and UTF-8 for \<open>Buffer.from(string)\<close> (a
  surrogate pair is one code point, a lone surrogate is written as U+FFFD); its image
  operations are stand-ins
  that accept a buffer starting with the PNG signature and return a token recording the
  request. In \<open>failing_backend\<close> every call of \<open>sharp\<close> rejects.
\<close>

definition b64_alphabet :: jsstring where
  "b64_alphabet = js ''ABCDEFGHIJKLMNOPQRSTUVWXYZabcdefghijklmnopqrstuvwxyz0123456789+/''"

fun index_of :: "jschar \<Rightarrow> jsstring \<Rightarrow> nat option" where
  "index_of c [] = None"
| "index_of c (x # xs) =
     (if c = x then Some 0 else (case index_of c xs of None \<Rightarrow> None | Some i \<Rightarrow> Some (Suc i)))"

definition low_byte :: "jschar \<Rightarrow> jschar" where
  "low_byte c = of_nat (unat c mod 256)"

definition b64_value :: "jschar \<Rightarrow> nat option" where
  "b64_value c =
     (if c = 0x2D then Some 62 else if c = 0x5F then Some 63 else index_of c b64_alphabet)"

fun b64_sextets :: "jsstring \<Rightarrow> nat list" where
  "b64_sextets [] = []"
| "b64_sextets (c # cs) =
     (if low_byte c = 0x3D then []
      else (case b64_value (low_byte c) of
              None \<Rightarrow> b64_sextets cs
            | Some v \<Rightarrow> v # b64_sextets cs))"

fun b64_bytes :: "nat list \<Rightarrow> buffer" where
  "b64_bytes (a # b # c # d # rest) =
     [of_nat (a * 4 + b div 16), of_nat ((b mod 16) * 16 + c div 4), of_nat ((c mod 4) * 64 + d)]
     @ b64_bytes rest"
| "b64_bytes [a, b, c] = [of_nat (a * 4 + b div 16), of_nat ((b mod 16) * 16 + c div 4)]"
| "b64_bytes [a, b] = [of_nat (a * 4 + b div 16)]"
| "b64_bytes _ = []"

definition b64_decode :: "jsstring \<Rightarrow> buffer" where
  "b64_decode str = b64_bytes (b64_sextets str)"

fun b64_encode :: "nat list \<Rightarrow> jsstring" where
  "b64_encode (a # b # c # rest) =
     [b64_alphabet ! (a div 4), b64_alphabet ! ((a mod 4) * 16 + b div 16),
      b64_alphabet ! ((b mod 16) * 4 + c div 64), b64_alphabet ! (c mod 64)]
     @ b64_encode rest"
| "b64_encode [a, b] =
     [b64_alphabet ! (a div 4), b64_alphabet ! ((a mod 4) * 16 + b div 16),
      b64_alphabet ! ((b mod 16) * 4), 0x3D]"
| "b64_encode [a] = [b64_alphabet ! (a div 4), b64_alphabet ! ((a mod 4) * 16), 0x3D, 0x3D]"
| "b64_encode [] = []"

definition utf8_of_code_point :: "nat \<Rightarrow> buffer" where
  "utf8_of_code_point n =
     (if n < 128 then [of_nat n]
      else if n < 2048 then [of_nat (192 + n div 64), of_nat (128 + n mod 64)]
      else if n < 65536 then
        [of_nat (224 + n div 4096), of_nat (128 + (n div 64) mod 64), of_nat (128 + n mod 64)]
      else
        [of_nat (240 + n div 262144), of_nat (128 + (n div 4096) mod 64),
         of_nat (128 + (n div 64) mod 64), of_nat (128 + n mod 64)])"

definition is_high_surrogate :: "jschar \<Rightarrow> bool" where
  "is_high_surrogate c = (0xD800 \<le> unat c \<and> unat c < 0xDC00)"

definition is_low_surrogate :: "jschar \<Rightarrow> bool" where
  "is_low_surrogate c = (0xDC00 \<le> unat c \<and> unat c < 0xE000)"

fun utf8_encode :: "jsstring \<Rightarrow> buffer" where
  "utf8_encode [] = []"
| "utf8_encode [c] =
     (if is_high_surrogate c \<or> is_low_surrogate c then utf8_of_code_point 0xFFFD
      else utf8_of_code_point (unat c))"
| "utf8_encode (c # c' # cs) =
     (if is_high_surrogate c \<and> is_low_surrogate c' then
        utf8_of_code_point (0x10000 + (unat c - 0xD800) * 1024 + (unat c' - 0xDC00))
        @ utf8_encode cs
      else if is_high_surrogate c \<or> is_low_surrogate c then
        utf8_of_code_point 0xFFFD @ utf8_encode (c' # cs)
      else utf8_of_code_point (unat c) @ utf8_encode (c' # cs))"

definition png_signature :: buffer where
  "png_signature = [0x89, 0x50, 0x4E, 0x47, 0x0D, 0x0A, 0x1A, 0x0A]"

definition stub_backend :: backend where
  "stub_backend =
     \<lparr>bufferFromString = utf8_encode,
      bufferFromBase64 = b64_decode,
      toBase64 = (\<lambda>b. b64_encode (map unat b)),
      resizeCoverPng = (\<lambda>b w h.
        if take 8 b = png_signature then Inr (png_signature @ [of_int w, of_int h])
        else Inl SharpError),
      createCompositePng = (\<lambda>w h ls.
        Inr (png_signature @ [of_int (w div 2), of_int h, of_nat (length ls)])),
      extractPng = (\<lambda>b r.
        if take 8 b = png_signature
        then Inr (png_signature @ [of_int (ex_left r), of_int (ex_width r), of_int (ex_height r)])
        else Inl SharpError),
      toPng = (\<lambda>b. Inr (png_signature @ [of_nat (length b mod 256)]))\<rparr>"


text \<open>The track of the repository's test, \<open>test-renderer.js\<close>.\<close>

definition testTrackInfo :: trackInfo where
  \<open>testTrackInfo =
     \<lparr>trackName = Some (js ''Midnight City''),
      artist = ArtistString (js ''M83''),
      album = Some (js ''Hurry Up, We're Dreaming''),
      thumbnail = None,
      duration = Some 244,
      position = Some 122\<rparr>\<close>

section \<open>Properties\<close>

subsection \<open>Basic facts about strings\<close>

lemma length_js: "length (js s) = length s"
  by (simp add: js_def)

subsection \<open>Truncation\<close>

text \<open>
  C5. For a budget \<open>B\<close> of at least 3 (the source passes 28 for the title and 32 for the
  artist, and 45 is the default), a string longer than \<open>B\<close> is emitted as its first
  \<open>B - 3\<close> code units followed by \<open>...\<close>, which is exactly \<open>B\<close> code units long and ends
  with \<open>...\<close>; a string of at most \<open>B\<close> code units is emitted unchanged; the emitted
  string is never longer than \<open>B\<close>.
\<close>

theorem truncate_law:
  "3 \<le> B \<Longrightarrow>
     (int (length s) > B \<longrightarrow>
        truncate s B = take (nat (B - 3)) s @ js ''...''
        \<and> int (length (truncate s B)) = B
        \<and> drop (length (truncate s B) - 3) (truncate s B) = js ''...'')
     \<and> (int (length s) \<le> B \<longrightarrow> truncate s B = s)
     \<and> int (length (truncate s B)) \<le> B"
  by (auto simp: truncate_def substring0_def length_js)

theorem truncate_law_witness:
  "(3::int) \<le> 28
   \<and> int (length (js ''The Rise and Fall of Ziggy Stardust and the Spiders from Mars'')) > 28
   \<and> truncate (js ''The Rise and Fall of Ziggy Stardust and the Spiders from Mars'') 28
       = js ''The Rise and Fall of Zigg...''
   \<and> int (length (js ''Midnight City'')) \<le> 28
   \<and> truncate (js ''Midnight City'') 28 = js ''Midnight City''"
  using truncate_law [of 28 "js ''The Rise and Fall of Ziggy Stardust and the Spiders from Mars''"]
    truncate_law [of 28 "js ''Midnight City''"]
  by (simp add: js_def)

subsection \<open>Escaping\<close>

lemmas chr_defs =
  chr_amp_def chr_lt_def chr_gt_def chr_quot_def chr_apos_def chr_comma_def chr_minus_def

lemma replaceAll_Nil: "replaceAll c r [] = []"
  by (simp add: replaceAll_def)

lemma replaceAll_Cons: "replaceAll c r (x # xs) = (if x = c then r else [x]) @ replaceAll c r xs"
  by (simp add: replaceAll_def)

lemma replaceAll_append: "replaceAll c r (xs @ ys) = replaceAll c r xs @ replaceAll c r ys"
  by (simp add: replaceAll_def)

text \<open>The five passes of \<open>escapeXml\<close>, in the source's order, act on each code unit alone.\<close>

lemma escape_passes_Cons:
  \<open>replaceAll chr_apos (js ''&#39;'')
     (replaceAll chr_quot (js ''&quot;'')
       (replaceAll chr_gt (js ''&gt;'')
         (replaceAll chr_lt (js ''&lt;'')
           (replaceAll chr_amp (js ''&amp;'') (x # xs)))))
   = escape_char x
     @ replaceAll chr_apos (js ''&#39;'')
         (replaceAll chr_quot (js ''&quot;'')
           (replaceAll chr_gt (js ''&gt;'')
             (replaceAll chr_lt (js ''&lt;'')
               (replaceAll chr_amp (js ''&amp;'') xs))))\<close>
  unfolding replaceAll_Cons [of chr_amp] replaceAll_append
  by (simp add: escape_char_def replaceAll_Cons replaceAll_Nil js_def chr_defs)

lemma escapeXml_concat: "escapeXml s = concat (map escape_char s)"
proof -
  have \<open>replaceAll chr_apos (js ''&#39;'')
     (replaceAll chr_quot (js ''&quot;'')
       (replaceAll chr_gt (js ''&gt;'')
         (replaceAll chr_lt (js ''&lt;'')
           (replaceAll chr_amp (js ''&amp;'') s))))
     = concat (map escape_char s)\<close>
  proof (induction s)
    case Nil
    show ?case by (simp add: replaceAll_Nil)
  next
    case (Cons x xs)
    show ?case unfolding escape_passes_Cons Cons.IH by simp
  qed
  then show ?thesis by (simp add: escapeXml_def)
qed

lemma escape_char_no_markup:
  "chr_lt \<notin> set (escape_char c)" "chr_gt \<notin> set (escape_char c)"
  "chr_quot \<notin> set (escape_char c)" "chr_apos \<notin> set (escape_char c)"
  by (simp_all add: escape_char_def js_def chr_defs)

lemma escapeXml_no_markup:
  "chr_lt \<notin> set (escapeXml s)" "chr_gt \<notin> set (escapeXml s)"
  "chr_quot \<notin> set (escapeXml s)" "chr_apos \<notin> set (escapeXml s)"
  by (simp_all add: escapeXml_concat escape_char_no_markup)

lemma amps_escape_char:
  "amps_start_entities rest \<Longrightarrow> amps_start_entities (escape_char c @ rest)"
  by (simp add: escape_char_def js_def chr_defs entities_def startsWith_def)

lemma amps_escapeXml: "amps_start_entities (escapeXml s)"
  unfolding escapeXml_concat
  by (induction s) (simp_all add: amps_escape_char)

subsection \<open>Reading tags\<close>

lemma scan_skip: "chr_lt \<notin> set ws \<Longrightarrow> scan_tags None (ws @ s) = scan_tags None s"
  by (induction ws) auto

lemma scan_body:
  "chr_gt \<notin> set body \<Longrightarrow>
     scan_tags (Some acc) (body @ chr_gt # rest) = (acc @ body @ [chr_gt]) # scan_tags None rest"
  by (induction body arbitrary: acc) auto

lemma tags_buildTextSvg:
  \<open>tags (buildTextSvg t w) =
     [js ''<svg width="280" height="100" xmlns="http://www.w3.org/2000/svg">'',
      js ''<style>'', js ''</style>'',
      js ''<text x="0" y="27" class="title">'', js ''</text>'',
      js ''<text x="0" y="55" class="artist">'', js ''</text>'',
      js ''</svg>'']\<close>
  unfolding tags_def buildTextSvg_def
  by (simp add: js_def chr_lt_def chr_gt_def scan_skip [unfolded chr_lt_def]
      escapeXml_no_markup [unfolded chr_lt_def])

lemma scan_nodes_text:
  "chr_lt \<notin> set ws \<Longrightarrow>
     scan_nodes False acc (ws @ chr_lt # rest) = Text (acc @ ws) # scan_nodes True [chr_lt] rest"
  by (induction ws arbitrary: acc) auto

lemma nodes_buildTextSvg:
  \<open>nodes (buildTextSvg t w) =
     [Text (js ''\<newline>    ''),
      Tag (js ''<svg width="280" height="100" xmlns="http://www.w3.org/2000/svg">''),
      Text (js ''\<newline>      ''),
      Tag (js ''<style>''),
      Text (js ''\<newline>        .title { font-family: Arial, sans-serif; font-size: 20px; font-weight: normal; fill: white; }\<newline>        .artist { font-family: Arial, sans-serif; font-size: 16px; fill: #B3B3B3; }\<newline>      ''),
      Tag (js ''</style>''),
      Text (js ''\<newline>      ''),
      Tag (js ''<text x="0" y="27" class="title">''),
      Text (escapeXml (truncate (title_of t) 28)),
      Tag (js ''</text>''),
      Text (js ''\<newline>      ''),
      Tag (js ''<text x="0" y="55" class="artist">''),
      Text (escapeXml (truncate (artist_of t) 32)),
      Tag (js ''</text>''),
      Text (js ''\<newline>    ''),
      Tag (js ''</svg>''),
      Text (js ''\<newline>    '')]\<close>
  unfolding nodes_def buildTextSvg_def
  by (simp add: js_def chr_lt_def chr_gt_def
      scan_nodes_text [where acc = "[]", unfolded chr_lt_def, simplified]
      escapeXml_no_markup [unfolded chr_lt_def])

lemma well_escaped_escapeXml: "well_escaped (escapeXml s)"
  by (simp add: well_escaped_def escapeXml_no_markup amps_escapeXml)

lemma well_escaped_fixed_texts:
  \<open>well_escaped (js ''\<newline>    '')\<close>
  \<open>well_escaped (js ''\<newline>      '')\<close>
  \<open>well_escaped (js ''\<newline>        .title { font-family: Arial, sans-serif; font-size: 20px; font-weight: normal; fill: white; }\<newline>        .artist { font-family: Arial, sans-serif; font-size: 16px; fill: #B3B3B3; }\<newline>      '')\<close>
  by (simp_all add: well_escaped_def js_def chr_defs)

lemma texts_escaped_buildTextSvg: "list_all text_escaped (nodes (buildTextSvg t w))"
  unfolding nodes_buildTextSvg
  by (simp add: well_escaped_escapeXml well_escaped_fixed_texts)

text \<open>
  C7. In the markup of \<open>buildTextSvg\<close> the text of the title element is the truncated
  title, and the text of the artist element the truncated artist, with each ampersand,
  angle bracket, double quote and apostrophe replaced by its entity. No text of the
  markup has a raw angle bracket or quote, and each ampersand in a text begins an entity;
  whatever the title and the artist are, the markup has the same eight tags. This is
  what \<open>escapeXml\<close> does to every string.
\<close>

theorem escapeXml_escapes:
  \<open>nodes (buildTextSvg t w) =
     [Text (js ''\<newline>    ''),
      Tag (js ''<svg width="280" height="100" xmlns="http://www.w3.org/2000/svg">''),
      Text (js ''\<newline>      ''),
      Tag (js ''<style>''),
      Text (js ''\<newline>        .title { font-family: Arial, sans-serif; font-size: 20px; font-weight: normal; fill: white; }\<newline>        .artist { font-family: Arial, sans-serif; font-size: 16px; fill: #B3B3B3; }\<newline>      ''),
      Tag (js ''</style>''),
      Text (js ''\<newline>      ''),
      Tag (js ''<text x="0" y="27" class="title">''),
      Text (concat (map escape_char (truncate (title_of t) 28))),
      Tag (js ''</text>''),
      Text (js ''\<newline>      ''),
      Tag (js ''<text x="0" y="55" class="artist">''),
      Text (concat (map escape_char (truncate (artist_of t) 32))),
      Tag (js ''</text>''),
      Text (js ''\<newline>    ''),
      Tag (js ''</svg>''),
      Text (js ''\<newline>    '')]
   \<and> list_all text_escaped (nodes (buildTextSvg t w))
   \<and> escapeXml s = concat (map escape_char s)
   \<and> chr_lt \<notin> set (escapeXml s) \<and> chr_gt \<notin> set (escapeXml s)
   \<and> chr_quot \<notin> set (escapeXml s) \<and> chr_apos \<notin> set (escapeXml s)
   \<and> amps_start_entities (escapeXml s)
   \<and> tags (buildTextSvg t w) =
       [js ''<svg width="280" height="100" xmlns="http://www.w3.org/2000/svg">'',
        js ''<style>'', js ''</style>'',
        js ''<text x="0" y="27" class="title">'', js ''</text>'',
        js ''<text x="0" y="55" class="artist">'', js ''</text>'',
        js ''</svg>'']\<close>
  using nodes_buildTextSvg [of t w] texts_escaped_buildTextSvg [of t w]
    escapeXml_concat [of s] escapeXml_no_markup [of s] amps_escapeXml [of s]
    tags_buildTextSvg [of t w]
  by (simp only: escapeXml_concat simp_thms)

theorem escapeXml_escapes_witness:
  \<open>nodes (buildTextSvg (testTrackInfo\<lparr>trackName := Some (js ''AC/DC <"R&B">''),
        artist := ArtistArray [Some (js ''Tom & Jerry''), Some (js ''O'Neil'')]\<rparr>) 284) ! 8
     = Text (js ''AC/DC &lt;&quot;R&amp;B&quot;&gt;'')
   \<and> nodes (buildTextSvg (testTrackInfo\<lparr>trackName := Some (js ''AC/DC <"R&B">''),
        artist := ArtistArray [Some (js ''Tom & Jerry''), Some (js ''O'Neil'')]\<rparr>) 284) ! 12
     = Text (js ''Tom &amp; Jerry, O&#39;Neil'')
   \<and> escapeXml (js ''AC/DC <"R&B">'') = js ''AC/DC &lt;&quot;R&amp;B&quot;&gt;''
   \<and> well_escaped (js ''AC/DC &lt;&quot;R&amp;B&quot;&gt;'')
   \<and> \<not> well_escaped (js ''AC/DC <"R&B">'')\<close>
proof -
  define t where \<open>t = testTrackInfo\<lparr>trackName := Some (js ''AC/DC <"R&B">''),
        artist := ArtistArray [Some (js ''Tom & Jerry''), Some (js ''O'Neil'')]\<rparr>\<close>
  note w = escapeXml_escapes [of t 284 \<open>js ''AC/DC <"R&B">''\<close>]
  have ti: \<open>truncate (title_of t) 28 = js ''AC/DC <"R&B">''\<close>
    by (simp add: t_def title_of_def truncate_def js_def)
  have ar: \<open>truncate (artist_of t) 32 = js ''Tom & Jerry, O'Neil''\<close>
    by (simp add: t_def artist_of_def truncate_def js_def)
  have e1: \<open>concat (map escape_char (js ''AC/DC <"R&B">'')) = js ''AC/DC &lt;&quot;R&amp;B&quot;&gt;''\<close>
    by (simp add: escape_char_def js_def chr_defs)
  have e2: \<open>concat (map escape_char (js ''Tom & Jerry, O'Neil'')) = js ''Tom &amp; Jerry, O&#39;Neil''\<close>
    by (simp add: escape_char_def js_def chr_defs)
  from w have n: \<open>nodes (buildTextSvg t 284) ! 8 = Text (js ''AC/DC &lt;&quot;R&amp;B&quot;&gt;'')\<close>
    \<open>nodes (buildTextSvg t 284) ! 12 = Text (js ''Tom &amp; Jerry, O&#39;Neil'')\<close>
    by (simp_all add: ti ar e1 e2)
  from w have x: \<open>escapeXml (js ''AC/DC <"R&B">'') = js ''AC/DC &lt;&quot;R&amp;B&quot;&gt;''\<close>
    by (simp add: e1)
  from w have \<open>well_escaped (escapeXml (js ''AC/DC <"R&B">''))\<close>
    unfolding well_escaped_def by blast
  then have y: \<open>well_escaped (js ''AC/DC &lt;&quot;R&amp;B&quot;&gt;'')\<close>
    by (simp only: x)
  have z: \<open>\<not> well_escaped (js ''AC/DC <"R&B">'')\<close>
    by (simp add: well_escaped_def js_def chr_defs)
  from n x y z show ?thesis unfolding t_def by blast
qed

subsection \<open>Title and artist\<close>

text \<open>
  C3, as the source has it. The artist list is joined with a comma and a space; an
  absent artist, or an artist that is the empty string, gives \<open>Unknown Artist\<close>; an
  absent or empty title gives \<open>Unknown Track\<close>; any other title is taken as it is.
\<close>

theorem text_defaults:
  "(artist t = ArtistArray names \<longrightarrow> artist_of t = join (js '', '') names)
   \<and> join sep [Some a] = a
   \<and> join sep (Some a # n # ns) = a @ sep @ join sep (n # ns)
   \<and> (artist t = ArtistAbsent \<or> artist t = ArtistString [] \<longrightarrow>
        artist_of t = js ''Unknown Artist'')
   \<and> (trackName t = None \<or> trackName t = Some [] \<longrightarrow> title_of t = js ''Unknown Track'')
   \<and> (trackName t = Some s \<and> s \<noteq> [] \<longrightarrow> title_of t = s)"
  by (auto simp: artist_of_def title_of_def)

theorem text_defaults_witness:
  "artist (testTrackInfo\<lparr>artist := ArtistArray [Some (js ''Daft Punk''), Some (js ''Pharrell'')]\<rparr>)
     = ArtistArray [Some (js ''Daft Punk''), Some (js ''Pharrell'')]
   \<and> artist_of (testTrackInfo\<lparr>artist := ArtistArray [Some (js ''Daft Punk''), Some (js ''Pharrell'')]\<rparr>)
     = js ''Daft Punk, Pharrell''
   \<and> artist (testTrackInfo\<lparr>artist := ArtistAbsent\<rparr>) = ArtistAbsent
   \<and> artist_of (testTrackInfo\<lparr>artist := ArtistAbsent\<rparr>) = js ''Unknown Artist''
   \<and> trackName (testTrackInfo\<lparr>trackName := Some []\<rparr>) = Some []
   \<and> title_of (testTrackInfo\<lparr>trackName := Some []\<rparr>) = js ''Unknown Track''
   \<and> trackName testTrackInfo = Some (js ''Midnight City'') \<and> js ''Midnight City'' \<noteq> []
   \<and> title_of testTrackInfo = js ''Midnight City''"
  using
    text_defaults [of "testTrackInfo\<lparr>artist := ArtistArray [Some (js ''Daft Punk''), Some (js ''Pharrell'')]\<rparr>"
      "[Some (js ''Daft Punk''), Some (js ''Pharrell'')]" "js '', ''" "js ''Daft Punk''"
      "Some (js ''Pharrell'')" "[]" "[]"]
    text_defaults [of "testTrackInfo\<lparr>artist := ArtistAbsent\<rparr>"]
    text_defaults [of "testTrackInfo\<lparr>trackName := Some []\<rparr>"]
    text_defaults [of testTrackInfo _ _ _ _ _ "js ''Midnight City''"]
  by (simp add: testTrackInfo_def js_def)

text \<open>An empty artist array is an array: it is joined, and the artist text is empty.\<close>

theorem text_defaults_counterexample:
  "artist_of (testTrackInfo\<lparr>artist := ArtistArray []\<rparr>) = []
   \<and> artist_of (testTrackInfo\<lparr>artist := ArtistArray []\<rparr>) \<noteq> js ''Unknown Artist''
   \<and> escapeXml (truncate (artist_of (testTrackInfo\<lparr>artist := ArtistArray []\<rparr>)) 32) = []"
  by (simp add: artist_of_def testTrackInfo_def js_def truncate_def escapeXml_def)

subsection \<open>Decimal numerals\<close>

lemma unat_digit: "d < 10 \<Longrightarrow> unat (digit d) = 48 + d"
  unfolding digit_def by (rule of_nat_inverse) simp_all

lemma digits_range: "c \<in> set (digits n) \<Longrightarrow> 48 \<le> unat c \<and> unat c \<le> 57"
proof (induction n arbitrary: c rule: digits.induct)
  case (1 n)
  show ?case
  proof (cases "n < 10")
    case True
    with "1.prems" have "c = digit n" by (simp add: digits.simps [of n])
    with True show ?thesis by (simp add: unat_digit)
  next
    case False
    with "1.prems" have "c \<in> set (digits (n div 10)) \<or> c = digit (n mod 10)"
      by (auto simp: digits.simps [of n])
    then show ?thesis
    proof
      assume "c \<in> set (digits (n div 10))"
      with False "1.IH" show ?thesis by blast
    next
      assume "c = digit (n mod 10)"
      then show ?thesis using unat_digit [of "n mod 10"] by simp
    qed
  qed
qed

lemma show_int_no_angle: "chr_lt \<notin> set (show_int i)" "chr_gt \<notin> set (show_int i)"
  using digits_range [of chr_lt] digits_range [of chr_gt]
  by (auto simp: show_int_def chr_defs)

subsection \<open>Rounding to a double\<close>

lemma nat_bounds_rat:
  assumes "0 < (n::int)"
  shows "(2::rat) ^ (floorlog 2 (nat n) - 1) \<le> of_int n \<and> of_int n < (2::rat) ^ floorlog 2 (nat n)
    \<and> 1 \<le> floorlog 2 (nat n)"
proof -
  from assms have n: "0 < nat n" by simp
  have b: "2 ^ (floorlog 2 (nat n) - 1) \<le> nat n" "nat n < 2 ^ floorlog 2 (nat n)"
    using floorlog_bounds [OF n, of 2] by simp_all
  have "(of_nat (2 ^ (floorlog 2 (nat n) - 1)) :: rat) \<le> of_nat (nat n)"
    using b(1) by (simp only: of_nat_le_iff)
  moreover have "(of_nat (nat n) :: rat) < of_nat (2 ^ floorlog 2 (nat n))"
    using b(2) by (simp only: of_nat_less_iff)
  moreover have "(of_nat (nat n) :: rat) = of_int n"
    using assms by simp
  moreover have "1 \<le> floorlog 2 (nat n)"
    using n by (simp add: floorlog_def)
  ultimately show ?thesis by simp
qed

lemma ilog2_bounds:
  assumes "0 < x"
  shows "2 powi ilog2 x \<le> x \<and> x < 2 powi (ilog2 x + 1)"
proof -
  obtain p q where pq: "quotient_of x = (p, q)" by (cases "quotient_of x")
  then have q: "0 < q" and x: "x = of_int p / of_int q"
    using quotient_of_denom_pos quotient_of_div by blast+
  with assms have p: "0 < p" by (simp add: zero_less_divide_iff)
  define a where "a = floorlog 2 (nat p)"
  define b where "b = floorlog 2 (nat q)"
  define k where "k = int a - int b"
  define P :: rat where "P = of_int p"
  define Q :: rat where "Q = of_int q"
  define A :: rat where "A = 2 ^ a"
  define B :: rat where "B = 2 ^ b"
  have a: "2 ^ (a - 1) \<le> P" "P < A" "1 \<le> a"
    using nat_bounds_rat [OF p] by (simp_all add: a_def P_def A_def)
  have b: "2 ^ (b - 1) \<le> Q" "Q < B" "1 \<le> b"
    using nat_bounds_rat [OF q] by (simp_all add: b_def Q_def B_def)
  have A2: "A = 2 * 2 ^ (a - 1)" using a(3) by (simp add: A_def power_eq_if)
  have B2: "B = 2 * 2 ^ (b - 1)" using b(3) by (simp add: B_def power_eq_if)
  have pos: "0 < P" "0 < Q" "0 < A" "0 < B" using p q by (simp_all add: P_def Q_def A_def B_def)
  have k0: "2 powi k = A / B"
    unfolding k_def A_def B_def by (simp add: power_int_diff)
  have k1: "2 powi (k + 1) = 2 * A / B"
    using k0 by (simp add: power_int_add)
  have km: "2 powi (k - 1) = A / (2 * B)"
    using k0 by (simp add: power_int_diff)
  have X: "x = P / Q" by (simp add: x P_def Q_def)
  have hi: "x < 2 * A / B"
  proof -
    have "P * B < A * B" using a(2) pos by simp
    also have "\<dots> \<le> A * (2 * Q)" using b(1) B2 pos by simp
    finally have "P * B < 2 * A * Q" by (simp add: mult_ac)
    then show ?thesis using pos by (simp add: X field_simps)
  qed
  have lo: "A / (2 * B) < x"
  proof -
    have "A * Q \<le> 2 * P * Q" using a(1) A2 pos by simp
    also have "\<dots> < 2 * P * B" using b(2) pos by simp
    finally show ?thesis using pos by (simp add: X field_simps)
  qed
  have i: "ilog2 x = (if 2 powi k \<le> x then k else k - 1)"
    by (simp add: ilog2_def pq Let_def k_def a_def b_def)
  show ?thesis
  proof (cases "2 powi k \<le> x")
    case True
    with i hi k1 show ?thesis by simp
  next
    case False
    with i have "ilog2 x = k - 1" by simp
    with False lo km show ?thesis by simp
  qed
qed

lemma ilog2_unique:
  assumes "0 < x" "2 powi e \<le> x" "x < 2 powi (e + 1)"
  shows "ilog2 x = e"
proof (rule ccontr)
  assume n: "ilog2 x \<noteq> e"
  from ilog2_bounds [OF assms(1)] have b: "2 powi ilog2 x \<le> x" "x < 2 powi (ilog2 x + 1)"
    by simp_all
  show False
  proof (cases "ilog2 x < e")
    case True
    then have "(2::rat) powi (ilog2 x + 1) \<le> 2 powi e"
      by (intro power_int_increasing) simp_all
    with b(2) assms(2) show False by simp
  next
    case False
    with n have "e + 1 \<le> ilog2 x" by simp
    then have "(2::rat) powi (e + 1) \<le> 2 powi ilog2 x"
      by (intro power_int_increasing) simp_all
    with b(1) assms(3) show False by simp
  qed
qed

lemma ilog2_mono:
  assumes "0 < x" "x \<le> y"
  shows "ilog2 x \<le> ilog2 y"
proof (rule ccontr)
  assume "\<not> ilog2 x \<le> ilog2 y"
  then have "ilog2 y + 1 \<le> ilog2 x" by simp
  then have "(2::rat) powi (ilog2 y + 1) \<le> 2 powi ilog2 x"
    by (intro power_int_increasing) simp_all
  moreover from assms have "0 < y" by simp
  ultimately show False
    using ilog2_bounds [OF assms(1)] ilog2_bounds [of y] assms(2) by simp
qed

lemma rhe_of_int: "round_half_even (of_int n) = n"
  by (simp add: round_half_even_def)

lemma rhe_range: "\<lfloor>x\<rfloor> \<le> round_half_even x \<and> round_half_even x \<le> \<lfloor>x\<rfloor> + 1"
  by (simp add: round_half_even_def Let_def)

lemma rhe_mono:
  assumes "x \<le> y"
  shows "round_half_even x \<le> round_half_even y"
proof (cases "\<lfloor>x\<rfloor> = \<lfloor>y\<rfloor>")
  case True
  from assms have "x - of_int \<lfloor>y\<rfloor> \<le> y - of_int \<lfloor>y\<rfloor>" by simp
  with True show ?thesis by (auto simp: round_half_even_def Let_def)
next
  case False
  with assms have "\<lfloor>x\<rfloor> + 1 \<le> \<lfloor>y\<rfloor>"
    using floor_mono [OF assms] by simp
  with rhe_range [of x] rhe_range [of y] show ?thesis by linarith
qed

lemma rhe_ge: "of_int n \<le> x \<Longrightarrow> n \<le> round_half_even x"
  using rhe_mono [of "of_int n" x] by (simp add: rhe_of_int)

lemma rhe_le: "x \<le> of_int n \<Longrightarrow> round_half_even x \<le> n"
  using rhe_mono [of x "of_int n"] by (simp add: rhe_of_int)

lemma round_double_exact:
  assumes "x / 2 powi ulp_exponent x = of_int m"
  shows "round_double x = x"
proof (cases "x = 0")
  case True
  then show ?thesis by (simp add: round_double_def)
next
  case False
  have "round_double x = of_int m * 2 powi ulp_exponent x"
    using False by (simp add: round_double_def assms rhe_of_int)
  also have "\<dots> = x"
    using assms by (simp add: field_simps)
  finally show ?thesis .
qed

lemma round_double_nonneg: "0 \<le> x \<Longrightarrow> 0 \<le> round_double x"
proof -
  assume x: "0 \<le> x"
  then have "(of_int 0 :: rat) \<le> x / 2 powi ulp_exponent x" by simp
  then have "0 \<le> round_half_even (x / 2 powi ulp_exponent x)" by (rule rhe_ge)
  then show ?thesis by (simp add: round_double_def)
qed

lemma ulp_exponent_mono: "0 < x \<Longrightarrow> x \<le> y \<Longrightarrow> ulp_exponent x \<le> ulp_exponent y"
  using ilog2_mono [of x y] by (simp add: ulp_exponent_def)

lemma round_double_upper:
  assumes "0 < x"
  shows "round_double x \<le> 2 powi (ulp_exponent x + 53)"
proof -
  define e where "e = ulp_exponent x"
  have "ilog2 x + 1 \<le> e + 53" using assms by (simp add: e_def ulp_exponent_def)
  then have "(2::rat) powi (ilog2 x + 1) \<le> 2 powi (e + 53)"
    by (intro power_int_increasing) simp_all
  with ilog2_bounds [OF assms] have "x \<le> 2 powi (e + 53)" by simp
  also have "\<dots> = 2 ^ 53 * 2 powi e" by (simp add: power_int_add)
  finally have "x / 2 powi e \<le> of_int (2 ^ 53)" by (simp add: field_simps)
  then have "round_half_even (x / 2 powi e) \<le> 2 ^ 53" by (rule rhe_le)
  then have "(of_int (round_half_even (x / 2 powi e)) :: rat) \<le> 2 ^ 53"
    by (metis of_int_le_iff of_int_numeral of_int_power)
  then have "of_int (round_half_even (x / 2 powi e)) * 2 powi e \<le> 2 ^ 53 * (2::rat) powi e"
    by (intro mult_right_mono) simp_all
  then show ?thesis using assms by (simp add: round_double_def e_def power_int_add)
qed

lemma round_double_lower:
  assumes "0 < x" "- 1074 < ulp_exponent x"
  shows "2 powi (ulp_exponent x + 52) \<le> round_double x"
proof -
  define e where "e = ulp_exponent x"
  from assms have "e + 52 = ilog2 x" by (simp add: e_def ulp_exponent_def)
  with ilog2_bounds [OF assms(1)] have "2 powi (e + 52) \<le> x" by simp
  moreover have "(2::rat) powi (e + 52) = 2 ^ 52 * 2 powi e" by (simp add: power_int_add)
  ultimately have "of_int (2 ^ 52) \<le> x / 2 powi e" by (simp add: field_simps)
  then have "2 ^ 52 \<le> round_half_even (x / 2 powi e)" by (rule rhe_ge)
  then have "(2::rat) ^ 52 \<le> of_int (round_half_even (x / 2 powi e))"
    by (metis of_int_le_iff of_int_numeral of_int_power)
  then have "2 ^ 52 * (2::rat) powi e \<le> of_int (round_half_even (x / 2 powi e)) * 2 powi e"
    by (intro mult_right_mono) simp_all
  then show ?thesis using assms by (simp add: round_double_def e_def power_int_add)
qed

lemma round_double_mono_pos:
  assumes "0 < x" "x \<le> y"
  shows "round_double x \<le> round_double y"
proof -
  from assms have y: "0 < y" by simp
  have le: "ulp_exponent x \<le> ulp_exponent y" using assms by (rule ulp_exponent_mono)
  show ?thesis
  proof (cases "ulp_exponent x = ulp_exponent y")
    case True
    define e where "e = ulp_exponent y"
    from assms have "x / 2 powi e \<le> y / 2 powi e" by (simp add: divide_right_mono)
    then have "round_half_even (x / 2 powi e) \<le> round_half_even (y / 2 powi e)" by (rule rhe_mono)
    then have "(of_int (round_half_even (x / 2 powi e)) :: rat) * 2 powi e
        \<le> of_int (round_half_even (y / 2 powi e)) * 2 powi e"
      by (intro mult_right_mono) simp_all
    with True assms y show ?thesis by (simp add: round_double_def e_def)
  next
    case False
    with le have lt: "ulp_exponent x + 1 \<le> ulp_exponent y" by simp
    have "- 1074 \<le> ulp_exponent x" by (simp add: ulp_exponent_def)
    with lt have "- 1074 < ulp_exponent y" by simp
    with y have "2 powi (ulp_exponent y + 52) \<le> round_double y" by (rule round_double_lower)
    moreover have "round_double x \<le> 2 powi (ulp_exponent x + 53)"
      using assms(1) by (rule round_double_upper)
    moreover have "(2::rat) powi (ulp_exponent x + 53) \<le> 2 powi (ulp_exponent y + 52)"
      using lt by (intro power_int_increasing) simp_all
    ultimately show ?thesis by simp
  qed
qed

lemma round_double_mono:
  assumes "0 \<le> x" "x \<le> y"
  shows "round_double x \<le> round_double y"
proof (cases "x = 0")
  case True
  with assms round_double_nonneg [of y] show ?thesis by (simp add: round_double_def)
next
  case False
  with assms have "0 < x" by simp
  then show ?thesis using assms(2) by (rule round_double_mono_pos)
qed

lemma round_double_int:
  assumes "0 \<le> n" "n \<le> 2 ^ 53"
  shows "round_double (of_int n) = of_int n"
proof (cases "n = 0")
  case True
  then show ?thesis by (simp add: round_double_def)
next
  case False
  with assms have n: "0 < n" by simp
  define x :: rat where "x = of_int n"
  have x: "0 < x" using n by (simp add: x_def)
  define e where "e = ulp_exponent x"
  show ?thesis
  proof (cases "n = 2 ^ 53")
    case True
    have "ilog2 x = 53"
      using x by (rule ilog2_unique) (simp_all add: x_def True)
    then have "e = 1" using x by (simp add: e_def ulp_exponent_def)
    then have "x / 2 powi ulp_exponent x = of_int (2 ^ 52)"
      by (simp add: e_def x_def True)
    then show ?thesis unfolding x_def [symmetric] by (rule round_double_exact)
  next
    case False
    with assms have lt: "n < 2 ^ 53" by simp
    have "ilog2 x < 53"
    proof (rule ccontr)
      assume "\<not> ilog2 x < 53"
      then have "(2::rat) powi 53 \<le> 2 powi ilog2 x"
        by (intro power_int_increasing) simp_all
      with ilog2_bounds [OF x] have "(2::rat) ^ 53 \<le> x" by simp
      then have "(2::int) ^ 53 \<le> n" unfolding x_def
        by (metis of_int_le_iff of_int_numeral of_int_power)
      with lt show False by simp
    qed
    moreover have "0 \<le> ilog2 x"
    proof (rule ccontr)
      assume "\<not> 0 \<le> ilog2 x"
      then have "ilog2 x + 1 \<le> 0" by simp
      then have "(2::rat) powi (ilog2 x + 1) \<le> 2 powi 0"
        by (intro power_int_increasing) simp_all
      with ilog2_bounds [OF x] have "x < 1" by simp
      with n show False by (simp add: x_def)
    qed
    ultimately have e: "e \<le> 0" using x by (simp add: e_def ulp_exponent_def)
    then have "(2::rat) powi e = inverse (2 ^ nat (- e))"
    proof -
      have "(2::rat) powi (- e) = 2 ^ nat (- e)" using e by (simp add: power_int_def)
      then show ?thesis using power_int_minus [of "2::rat" "- e"] by simp
    qed
    then have "x / 2 powi e = of_int (n * 2 ^ nat (- e))"
      by (simp add: x_def divide_inverse)
    then show ?thesis unfolding x_def [symmetric] e_def by (rule round_double_exact)
  qed
qed

lemma floor_rat_numeral: "\<lfloor>(numeral a / numeral b :: rat)\<rfloor> = numeral a div numeral b"
  using floor_divide_of_int_eq [of "numeral a" "numeral b", where ?'a = rat] by simp

lemma round_double_eval:
  assumes "0 < x" "2 powi (e + 52) \<le> x" "x < 2 powi (e + 53)" "- 1074 \<le> e"
  shows "round_double x = of_int (round_half_even (x / 2 powi e)) * 2 powi e"
proof -
  have "ilog2 x = e + 52"
    using assms(1,2) by (rule ilog2_unique) (simp add: assms(3) add.commute add.left_commute)
  then have "ulp_exponent x = e" using assms(1,4) by (simp add: ulp_exponent_def)
  then show ?thesis using assms(1) by (simp add: round_double_def)
qed

lemma to_double_eval:
  assumes "0 < x" "2 powi (e + 52) \<le> x" "x < 2 powi (e + 53)" "- 1074 \<le> e" "e \<le> 970"
  shows "to_double x = Finite (of_int (round_half_even (x / 2 powi e)) * 2 powi e)"
proof -
  have r: "round_double x = of_int (round_half_even (x / 2 powi e)) * 2 powi e"
    using assms(1-4) by (rule round_double_eval)
  have "ilog2 x = e + 52"
    using assms(1,2) by (rule ilog2_unique) (simp add: assms(3) add.commute add.left_commute)
  then have u: "ulp_exponent x = e" using assms(1,4) by (simp add: ulp_exponent_def)
  have "round_double x \<le> 2 powi (e + 53)"
    using round_double_upper [OF assms(1)] by (simp add: u)
  also have "\<dots> \<le> 2 powi 1023"
    using assms(5) by (intro power_int_increasing) simp_all
  also have "\<dots> < 2 ^ 1024" by simp
  finally have "round_double x < 2 ^ 1024" .
  moreover have "0 \<le> round_double x" using assms(1) by (simp add: round_double_nonneg)
  ultimately show ?thesis by (simp add: to_double_def Let_def r [symmetric])
qed

lemma progressWidth_eval:
  assumes "to_double (c / d) = Finite r" "to_double (r * of_int W) = Finite s"
  shows "progressWidth d (Some c) W = Whole \<lfloor>s + 1 / 2\<rfloor>"
  using assms by (simp add: progressWidth_def js_times_def math_round_def)

lemma pw_184_21: "progressWidth 184 (Some 21) 276 = Whole 31"
proof -
  have a: "to_double (21 / 184) = Finite (8223964536937427 / 72057594037927936)"
    by (subst to_double_eval [where e = "- 56"])
      (simp_all add: round_half_even_def Let_def floor_rat_numeral)
  have b: "to_double (8223964536937427 / 72057594037927936 * of_int 276) = Finite (8866461766385663 / 281474976710656)"
    by (subst to_double_eval [where e = "- 48"])
      (simp_all add: round_half_even_def Let_def floor_rat_numeral)
  show ?thesis
    using progressWidth_eval [OF a b] by (simp add: floor_rat_numeral)
qed

lemma pw_244_122: "progressWidth 244 (Some 122) 276 = Whole 138"
proof -
  have a: "to_double (122 / 244) = Finite (1 / 2)"
    by (subst to_double_eval [where e = "- 53"])
      (simp_all add: round_half_even_def Let_def floor_rat_numeral)
  have b: "to_double (1 / 2 * of_int 276) = Finite (138)"
    by (subst to_double_eval [where e = "- 45"])
      (simp_all add: round_half_even_def Let_def floor_rat_numeral)
  show ?thesis
    using progressWidth_eval [OF a b] by (simp add: floor_rat_numeral)
qed

lemma pw_244_183: "progressWidth 244 (Some 183) 276 = Whole 207"
proof -
  have a: "to_double (183 / 244) = Finite (3 / 4)"
    by (subst to_double_eval [where e = "- 53"])
      (simp_all add: round_half_even_def Let_def floor_rat_numeral)
  have b: "to_double (3 / 4 * of_int 276) = Finite (207)"
    by (subst to_double_eval [where e = "- 45"])
      (simp_all add: round_half_even_def Let_def floor_rat_numeral)
  show ?thesis
    using progressWidth_eval [OF a b] by (simp add: floor_rat_numeral)
qed

lemma pw_100_200: "progressWidth 100 (Some 200) 276 = Whole 552"
proof -
  have a: "to_double (200 / 100) = Finite (2)"
    by (subst to_double_eval [where e = "- 51"])
      (simp_all add: round_half_even_def Let_def floor_rat_numeral)
  have b: "to_double (2 * of_int 276) = Finite (552)"
    by (subst to_double_eval [where e = "- 43"])
      (simp_all add: round_half_even_def Let_def floor_rat_numeral)
  show ?thesis
    using progressWidth_eval [OF a b] by (simp add: floor_rat_numeral)
qed

lemma pw_244_half: "progressWidth 244 (Some (1 / 2)) 276 = Whole 1"
proof -
  have a: "to_double ((1 / 2) / 244) = Finite (4725088133634619 / 2305843009213693952)"
    by (subst to_double_eval [where e = "- 61"])
      (simp_all add: round_half_even_def Let_def floor_rat_numeral)
  have b: "to_double (4725088133634619 / 2305843009213693952 * of_int 276) = Finite (636779455509353 / 1125899906842624)"
    by (subst to_double_eval [where e = "- 53"])
      (simp_all add: round_half_even_def Let_def floor_rat_numeral)
  show ?thesis
    using progressWidth_eval [OF a b] by (simp add: floor_rat_numeral)
qed

lemma pw_244_3_8: "progressWidth 244 (Some (3 / 8)) 276 = Whole 0"
proof -
  have a: "to_double ((3 / 8) / 244) = Finite (885954025056491 / 576460752303423488)"
    by (subst to_double_eval [where e = "- 62"])
      (simp_all add: round_half_even_def Let_def floor_rat_numeral)
  have b: "to_double (885954025056491 / 576460752303423488 * of_int 276) = Finite (7641353466112235 / 18014398509481984)"
    by (subst to_double_eval [where e = "- 54"])
      (simp_all add: round_half_even_def Let_def floor_rat_numeral)
  show ?thesis
    using progressWidth_eval [OF a b] by (simp add: floor_rat_numeral)
qed


lemma spec_100_200: "spec_fill_width 100 200 276 = Whole 276"
proof -
  have a: "to_double (200 / 100) = Finite 2"
    by (subst to_double_eval [where e = "- 51"])
      (simp_all add: round_half_even_def Let_def floor_rat_numeral)
  have b: "to_double (1 * of_int 276) = Finite 276"
    by (subst to_double_eval [where e = "- 44"])
      (simp_all add: round_half_even_def Let_def floor_rat_numeral)
  have c: "\<lfloor>(276::rat) + 1 / 2\<rfloor> = 276" by linarith
  show ?thesis
    unfolding spec_fill_width_def a clamp01_def jsnum.case
    using b c by (simp add: js_times_def math_round_def)
qed

subsection \<open>The width of the fill\<close>

lemma to_double_small:
  assumes "0 \<le> x" "x \<le> of_int n" "0 \<le> n" "n \<le> 2 ^ 53"
  shows "to_double x = Finite (round_double x) \<and> 0 \<le> round_double x \<and> round_double x \<le> of_int n"
proof -
  have "round_double x \<le> round_double (of_int n)" using assms(1,2) by (rule round_double_mono)
  also have "\<dots> = of_int n" using assms(3,4) by (rule round_double_int)
  finally have le: "round_double x \<le> of_int n" .
  have "(of_int n :: rat) \<le> of_int (2 ^ 53)" using assms(4) by (simp only: of_int_le_iff)
  also have "\<dots> < 2 ^ 1024" by simp
  finally have "round_double x < 2 ^ 1024" using le by simp
  moreover have "0 \<le> round_double x" using assms(1) by (rule round_double_nonneg)
  ultimately show ?thesis using le by (simp add: to_double_def Let_def)
qed

lemma ratio_in_unit:
  assumes "0 < d" "0 \<le> p" "p \<le> d"
  shows "to_double (p / d) = Finite (round_double (p / d))
     \<and> 0 \<le> round_double (p / d) \<and> round_double (p / d) \<le> 1"
  using to_double_small [of "p / d" 1] assms by simp

lemma progressWidth_unit:
  assumes "0 < d" "0 \<le> p" "p \<le> d" "0 \<le> W" "W \<le> 2 ^ 53"
  shows "progressWidth d (Some p) W
     = Whole \<lfloor>round_double (round_double (p / d) * of_int W) + 1 / 2\<rfloor>"
proof -
  from ratio_in_unit [OF assms(1-3)] have r: "to_double (p / d) = Finite (round_double (p / d))"
    "0 \<le> round_double (p / d)" "round_double (p / d) \<le> 1" by simp_all
  have "round_double (p / d) * of_int W \<le> 1 * of_int W"
    using r(3) assms(4) by (intro mult_right_mono) simp_all
  moreover have "0 \<le> round_double (p / d) * of_int W" using r(2) assms(4) by simp
  ultimately have "to_double (round_double (p / d) * of_int W)
      = Finite (round_double (round_double (p / d) * of_int W))"
    using to_double_small [of "round_double (p / d) * of_int W" W] assms(4,5) by simp
  then show ?thesis by (simp add: progressWidth_def r(1) js_times_def math_round_def)
qed

lemma progressWidth_in_range:
  assumes "0 < d" "0 \<le> p" "p \<le> d"
  shows "progressWidth d (Some p) W = spec_fill_width d p W"
proof -
  from ratio_in_unit [OF assms] have r: "to_double (p / d) = Finite (round_double (p / d))"
    "0 \<le> round_double (p / d)" "round_double (p / d) \<le> 1" by simp_all
  then have "clamp01 (to_double (p / d)) = to_double (p / d)" by (simp add: clamp01_def)
  then show ?thesis by (simp add: progressWidth_def spec_fill_width_def)
qed

lemma progressWidth_mono:
  assumes "0 < d" "0 \<le> p" "p \<le> q" "q \<le> d" "0 \<le> W" "W \<le> 2 ^ 53"
  shows "\<exists>a b. progressWidth d (Some p) W = Whole a \<and> progressWidth d (Some q) W = Whole b \<and> a \<le> b"
proof -
  from assms have pd: "p \<le> d" and q0: "0 \<le> q" by simp_all
  have "0 \<le> p / d" using assms(1,2) by simp
  moreover have "p / d \<le> q / d" using assms(1,3) by (simp add: divide_right_mono)
  ultimately have "round_double (p / d) \<le> round_double (q / d)" by (rule round_double_mono)
  then have "round_double (p / d) * of_int W \<le> round_double (q / d) * of_int W"
    using assms(5) by (intro mult_right_mono) simp_all
  moreover have "0 \<le> round_double (p / d) * of_int W"
    using ratio_in_unit [OF assms(1,2) pd] assms(5) by simp
  ultimately have "0 \<le> round_double (p / d) * of_int W
      \<and> round_double (p / d) * of_int W \<le> round_double (q / d) * of_int W"
    by simp
  then have "round_double (round_double (p / d) * of_int W)
      \<le> round_double (round_double (q / d) * of_int W)"
    by (simp add: round_double_mono)
  then have "\<lfloor>round_double (round_double (p / d) * of_int W) + 1 / 2\<rfloor>
      \<le> \<lfloor>round_double (round_double (q / d) * of_int W) + 1 / 2\<rfloor>"
    by (intro floor_mono) simp
  then show ?thesis
    using progressWidth_unit [OF assms(1,2) pd assms(5,6)]
      progressWidth_unit [OF assms(1) q0 assms(4,5,6)]
    by blast
qed

lemma progressWidth_start: "progressWidth d (Some 0) W = Whole 0"
proof -
  have "to_double 0 = Finite 0" by (simp add: to_double_def round_double_def)
  moreover have "\<lfloor>(1::rat) / 2\<rfloor> = 0" by linarith
  ultimately show ?thesis by (simp add: progressWidth_def js_times_def math_round_def)
qed

lemma progressWidth_end:
  assumes "d \<noteq> 0" "0 \<le> W" "W \<le> 2 ^ 53"
  shows "progressWidth d (Some d) W = Whole W"
proof -
  have one: "to_double 1 = Finite 1"
    using to_double_small [of 1 1] round_double_int [of 1] by simp
  have w: "to_double (of_int W) = Finite (of_int W)"
    using to_double_small [of "of_int W" W] round_double_int [OF assms(2,3)] assms(2,3) by simp
  have "\<lfloor>(of_int W :: rat) + 1 / 2\<rfloor> = W" by linarith
  then show ?thesis
    using assms(1) by (simp add: progressWidth_def one js_times_def w math_round_def)
qed

text \<open>
  C2, as the source has it. For a duration \<open>d > 0\<close> and a bar width \<open>W\<close> from 0 to
  \<open>2\<^sup>5\<^sup>3\<close> the width of the fill is \<open>round((position / d) * W)\<close> in double
  arithmetic, with no clamping of the ratio. For a position between 0 and \<open>d\<close> this is
  the specification's clamped value, and there the width is a non-decreasing function of
  the position, 0 at position 0 and \<open>W\<close> at position \<open>d\<close>.
\<close>

theorem progress_fill_width:
  "0 < d \<Longrightarrow> 0 \<le> W \<Longrightarrow> W \<le> 2 ^ 53 \<Longrightarrow>
     progressWidth d (Some p) W = math_round (js_times (to_double (p / d)) W)
     \<and> (0 \<le> p \<and> p \<le> d \<longrightarrow> progressWidth d (Some p) W = spec_fill_width d p W)
     \<and> (0 \<le> p \<and> p \<le> q \<and> q \<le> d \<longrightarrow>
          (\<exists>a b. progressWidth d (Some p) W = Whole a
                 \<and> progressWidth d (Some q) W = Whole b \<and> a \<le> b))
     \<and> progressWidth d (Some 0) W = Whole 0
     \<and> progressWidth d (Some d) W = Whole W"
proof (intro conjI impI)
  show "progressWidth d (Some p) W = math_round (js_times (to_double (p / d)) W)"
    by (simp add: progressWidth_def)
next
  assume "0 < d" "0 \<le> p \<and> p \<le> d"
  then show "progressWidth d (Some p) W = spec_fill_width d p W"
    by (simp add: progressWidth_in_range)
next
  assume "0 < d" "0 \<le> W" "W \<le> 2 ^ 53" "0 \<le> p \<and> p \<le> q \<and> q \<le> d"
  then show "\<exists>a b. progressWidth d (Some p) W = Whole a
      \<and> progressWidth d (Some q) W = Whole b \<and> a \<le> b"
    using progressWidth_mono [of d p q W] by blast
next
  show "progressWidth d (Some 0) W = Whole 0"
    by (rule progressWidth_start)
next
  assume "0 < d" "0 \<le> W" "W \<le> 2 ^ 53"
  then show "progressWidth d (Some d) W = Whole W"
    by (simp add: progressWidth_end)
qed

theorem progress_fill_width_witness:
  "(0::rat) < 244 \<and> (0::int) \<le> 276 \<and> (276::int) \<le> 2 ^ 53
   \<and> (0::rat) \<le> 122 \<and> (122::rat) \<le> 183 \<and> (183::rat) \<le> 244
   \<and> progressWidth 244 (Some 122) 276 = Whole 138
   \<and> progressWidth 244 (Some 183) 276 = Whole 207
   \<and> spec_fill_width 244 122 276 = Whole 138
   \<and> progressWidth 244 (Some 0) 276 = Whole 0
   \<and> progressWidth 244 (Some 244) 276 = Whole 276
   \<and> (0::rat) < 184 \<and> (0::rat) \<le> 21 \<and> (21::rat) \<le> 184
   \<and> progressWidth 184 (Some 21) 276 = Whole 31
   \<and> spec_fill_width 184 21 276 = Whole 31"
proof -
  note w = progress_fill_width [of 244 276 122 183]
  note v = progress_fill_width [of 184 276 21 21]
  have h: "(0::rat) < 244" "(0::int) \<le> 276" "(276::int) \<le> 2 ^ 53"
    "(0::rat) \<le> 122 \<and> (122::rat) \<le> 244" "(0::rat) < 184" "(0::rat) \<le> 21 \<and> (21::rat) \<le> 184"
    by simp_all
  from w [OF h(1,2,3)] h(4) have "progressWidth 244 (Some 122) 276 = spec_fill_width 244 122 276"
    and "progressWidth 244 (Some 0) 276 = Whole 0"
    and "progressWidth 244 (Some 244) 276 = Whole 276"
    by blast+
  moreover from v [OF h(5,2,3)] h(6)
  have "progressWidth 184 (Some 21) 276 = spec_fill_width 184 21 276"
    by blast
  ultimately show ?thesis
    by (simp add: pw_244_122 pw_244_183 pw_184_21)
qed

text \<open>
  A position beyond the duration: the specification's clamped width is the bar width,
  276; the source computes 552 and writes a fill rectangle of that width.
\<close>

theorem progress_fill_width_counterexample:
  \<open>progressWidth 100 (Some 200) 276 = Whole 552
   \<and> spec_fill_width 100 200 276 = Whole 276
   \<and> progressWidth 100 (Some 200) 276 \<noteq> spec_fill_width 100 200 276
   \<and> tags (createProgressBar (Some 100) (Some 200) 276 108 75) =
       [js ''<svg width="400" height="100" xmlns="http://www.w3.org/2000/svg">'',
        js ''<rect x="108" y="75" width="276" height="5" rx="1" fill="#404040"/>'',
        js ''<rect x="108" y="75" width="552" height="5" rx="1" fill="#1DB954"/>'',
        js ''</svg>'']\<close>
  by (simp add: pw_100_200 spec_100_200
      tags_def createProgressBar_def bar_rect_def bar_rect_text_def bgColor_def fillColor_def
      show_int_def digits.simps digit_def js_def chr_defs)

subsection \<open>The elements of the progress bar\<close>

lemma bar_rect_text_shape:
  assumes "chr_gt \<notin> set col" "chr_gt \<notin> set w"
  shows "\<exists>body. chr_gt \<notin> set body \<and> bar_rect_text X Y w col = chr_lt # body @ [chr_gt]"
proof (intro exI conjI)
  show \<open>bar_rect_text X Y w col =
      chr_lt # (js ''rect x="'' @ show_int X @ js ''" y="'' @ show_int Y
        @ js ''" width="'' @ w @ js ''" height="'' @ show_int 5
        @ js ''" rx="'' @ show_int 1 @ js ''" fill="'' @ col @ js ''"/'') @ [chr_gt]\<close>
    by (simp add: bar_rect_text_def js_def chr_defs)
  show \<open>chr_gt \<notin> set (js ''rect x="'' @ show_int X @ js ''" y="'' @ show_int Y
        @ js ''" width="'' @ w @ js ''" height="'' @ show_int 5
        @ js ''" rx="'' @ show_int 1 @ js ''" fill="'' @ col @ js ''"/'')\<close>
    using assms show_int_no_angle(2) by (simp add: js_def chr_gt_def)
qed

lemma scan_bar_rect_text:
  assumes "chr_gt \<notin> set col" "chr_gt \<notin> set w"
  shows "scan_tags None (bar_rect_text X Y w col @ rest)
      = bar_rect_text X Y w col # scan_tags None rest"
proof -
  from bar_rect_text_shape [OF assms] obtain body
    where b: "chr_gt \<notin> set body" and e: "bar_rect_text X Y w col = chr_lt # body @ [chr_gt]"
    by blast
  have "scan_tags None (bar_rect_text X Y w col @ rest)
      = scan_tags (Some [chr_lt]) (body @ chr_gt # rest)"
    by (simp add: e)
  also have "\<dots> = ([chr_lt] @ body @ [chr_gt]) # scan_tags None rest"
    using b by (rule scan_body)
  finally show ?thesis by (simp add: e)
qed

lemma scan_bar_rect:
  assumes "chr_gt \<notin> set col"
  shows "scan_tags None (bar_rect X Y w col @ rest) = bar_rect X Y w col # scan_tags None rest"
  unfolding bar_rect_def using assms show_int_no_angle(2) by (rule scan_bar_rect_text)

lemma colours_no_gt: "chr_gt \<notin> set bgColor" "chr_gt \<notin> set fillColor"
  by (simp_all add: bgColor_def fillColor_def js_def chr_gt_def)

lemma infinity_no_gt: "chr_gt \<notin> set (js ''Infinity'')"
  by (simp add: js_def chr_gt_def)

lemma tags_bar_no_duration:
  \<open>dur = None \<or> dur = Some 0 \<Longrightarrow> tags (createProgressBar dur p W X Y) =
     [js ''<svg width="400" height="100" xmlns="http://www.w3.org/2000/svg">'',
      bar_rect X Y W bgColor, js ''</svg>'']\<close>
  unfolding tags_def createProgressBar_def
  by (auto simp add: js_def chr_lt_def chr_gt_def
      scan_bar_rect [OF colours_no_gt(1), unfolded chr_lt_def chr_gt_def])

lemma tags_bar_duration:
  \<open>d \<noteq> 0 \<Longrightarrow> tags (createProgressBar (Some d) p W X Y) =
     [js ''<svg width="400" height="100" xmlns="http://www.w3.org/2000/svg">'',
      bar_rect X Y W bgColor]
     @ (case progressWidth d p W of
          NotANumber \<Rightarrow> []
        | Whole w \<Rightarrow> if w > 0 then [bar_rect X Y w fillColor] else []
        | PlusInfinity \<Rightarrow> [bar_rect_text X Y (js ''Infinity'') fillColor]
        | MinusInfinity \<Rightarrow> [])
     @ [js ''</svg>'']\<close>
  unfolding tags_def createProgressBar_def
  by (auto simp add: chr_lt_def chr_gt_def
      scan_bar_rect [OF colours_no_gt(1), unfolded chr_lt_def chr_gt_def]
      scan_bar_rect [OF colours_no_gt(2), unfolded chr_lt_def chr_gt_def]
      scan_bar_rect_text [OF colours_no_gt(2) infinity_no_gt, unfolded chr_lt_def chr_gt_def]
      js_def [of \<open>''\<newline>      <svg width="400" height="100" xmlns="http://www.w3.org/2000/svg">\<newline>''\<close>]
      js_def [of \<open>''        ''\<close>] js_def [of \<open>''\<newline>''\<close>]
      js_def [of \<open>''      </svg>\<newline>    ''\<close>]
      js_def [of \<open>''<svg width="400" height="100" xmlns="http://www.w3.org/2000/svg">''\<close>]
      js_def [of \<open>''</svg>''\<close>]
      split: rounded.splits)

text \<open>
  C6. With an absent or zero duration the bar's markup has one rectangle, the background
  track. With a duration the markup has the same track rectangle, followed by a fill
  rectangle exactly when the computed width is above 0 (a whole number, or the positive
  infinity of an overflow): a computed width of 0 (as at position 0) writes no fill
  element, and the markup then has the same elements as without a duration.
\<close>

theorem progress_bar_elements:
  \<open>(dur = None \<or> dur = Some 0 \<longrightarrow>
      tags (createProgressBar dur p W X Y) =
        [js ''<svg width="400" height="100" xmlns="http://www.w3.org/2000/svg">'',
         bar_rect X Y W bgColor, js ''</svg>''])
   \<and> (d \<noteq> 0 \<longrightarrow>
      tags (createProgressBar (Some d) p W X Y) =
        [js ''<svg width="400" height="100" xmlns="http://www.w3.org/2000/svg">'',
         bar_rect X Y W bgColor]
        @ (case progressWidth d p W of
             NotANumber \<Rightarrow> []
           | Whole w \<Rightarrow> if w > 0 then [bar_rect X Y w fillColor] else []
           | PlusInfinity \<Rightarrow> [bar_rect_text X Y (js ''Infinity'') fillColor]
           | MinusInfinity \<Rightarrow> [])
        @ [js ''</svg>''])
   \<and> (d \<noteq> 0 \<and> progressWidth d p W = Whole 0 \<longrightarrow>
      tags (createProgressBar (Some d) p W X Y) = tags (createProgressBar None p W X Y))
   \<and> (d \<noteq> 0 \<longrightarrow>
      tags (createProgressBar (Some d) (Some 0) W X Y) = tags (createProgressBar None (Some 0) W X Y))\<close>
proof -
  have z: "progressWidth d (Some 0) W = Whole 0"
    by (rule progressWidth_start)
  show ?thesis
    using tags_bar_no_duration [of dur p W X Y] tags_bar_no_duration [of None p W X Y]
      tags_bar_no_duration [of None "Some 0" W X Y]
      tags_bar_duration [of d p W X Y] tags_bar_duration [of d "Some 0" W X Y] z
    by simp
qed

theorem progress_bar_elements_witness:
  \<open>tags (createProgressBar None (Some 30) 276 108 75) =
      [js ''<svg width="400" height="100" xmlns="http://www.w3.org/2000/svg">'',
       js ''<rect x="108" y="75" width="276" height="5" rx="1" fill="#404040"/>'',
       js ''</svg>'']
   \<and> (244::rat) \<noteq> 0
   \<and> progressWidth 244 (Some 122) 276 = Whole 138
   \<and> tags (createProgressBar (Some 244) (Some 122) 276 108 75) =
      [js ''<svg width="400" height="100" xmlns="http://www.w3.org/2000/svg">'',
       js ''<rect x="108" y="75" width="276" height="5" rx="1" fill="#404040"/>'',
       js ''<rect x="108" y="75" width="138" height="5" rx="1" fill="#1DB954"/>'',
       js ''</svg>'']
   \<and> progressWidth 244 (Some (1 / 2)) 276 = Whole 1
   \<and> progressWidth 244 (Some (3 / 8)) 276 = Whole 0
   \<and> tags (createProgressBar (Some 244) (Some (3 / 8)) 276 108 75) =
       tags (createProgressBar None (Some (3 / 8)) 276 108 75)\<close>
proof -
  have r: \<open>bar_rect 108 75 276 bgColor
        = js ''<rect x="108" y="75" width="276" height="5" rx="1" fill="#404040"/>''\<close>
    \<open>bar_rect 108 75 138 fillColor
        = js ''<rect x="108" y="75" width="138" height="5" rx="1" fill="#1DB954"/>''\<close>
    by (simp_all add: bar_rect_def bar_rect_text_def bgColor_def fillColor_def show_int_def
        digits.simps digit_def js_def)
  show ?thesis
    using progress_bar_elements [of None "Some 30" 276 108 75 244]
      progress_bar_elements [of None "Some 122" 276 108 75 244]
      progress_bar_elements [of None "Some (3 / 8)" 276 108 75 244]
    by (simp add: pw_244_122 pw_244_half pw_244_3_8 r)
qed

subsection \<open>The artwork bytes\<close>

lemma split_segments:
  "split sep s = takeWhile (\<lambda>c. c \<noteq> sep) s #
     (if sep \<in> set s then split sep (tl (dropWhile (\<lambda>c. c \<noteq> sep) s)) else [])"
  by (induction s) (auto split: list.splits)

lemma split_second:
  assumes "sep \<in> set s"
  shows "\<exists>seg segs. split sep s =
      seg # takeWhile (\<lambda>c. c \<noteq> sep) (tl (dropWhile (\<lambda>c. c \<noteq> sep) s)) # segs"
proof -
  have "split sep s
      = takeWhile (\<lambda>c. c \<noteq> sep) s # split sep (tl (dropWhile (\<lambda>c. c \<noteq> sep) s))"
    using assms split_segments [of sep s] by simp
  also have "split sep (tl (dropWhile (\<lambda>c. c \<noteq> sep) s))
      = takeWhile (\<lambda>c. c \<noteq> sep) (tl (dropWhile (\<lambda>c. c \<noteq> sep) s))
        # (if sep \<in> set (tl (dropWhile (\<lambda>c. c \<noteq> sep) s))
           then split sep (tl (dropWhile (\<lambda>c. c \<noteq> sep) (tl (dropWhile (\<lambda>c. c \<noteq> sep) s))))
           else [])"
    by (rule split_segments)
  finally show ?thesis by blast
qed

lemma split_no_sep: "sep \<notin> set s \<Longrightarrow> split sep s = [s]"
  by (induction s) auto

lemma takeWhile_all: "sep \<notin> set xs \<Longrightarrow> takeWhile (\<lambda>c. c \<noteq> sep) xs = xs"
  by (induction xs) auto

lemma extract_null: "extractBase64FromDataUrl be d = Inr None \<longleftrightarrow> d = None \<or> d = Some []"
  by (auto simp: extractBase64FromDataUrl_def split: option.splits list.splits)

lemma extract_no_comma:
  "s \<noteq> [] \<Longrightarrow> startsWith s (js ''data:'') \<Longrightarrow> chr_comma \<notin> set s \<Longrightarrow>
     extractBase64FromDataUrl be (Some s) = Inl TypeError"
  by (simp add: extractBase64FromDataUrl_def split_no_sep)

lemma extract_comma:
  assumes "s \<noteq> []" "startsWith s (js ''data:'')" "chr_comma \<in> set s"
  shows "extractBase64FromDataUrl be (Some s) =
     Inr (Some (bufferFromBase64 be
       (takeWhile (\<lambda>c. c \<noteq> chr_comma) (tl (dropWhile (\<lambda>c. c \<noteq> chr_comma) s)))))"
proof -
  from split_second [OF assms(3)] obtain seg segs where
    "split chr_comma s =
      seg # takeWhile (\<lambda>c. c \<noteq> chr_comma) (tl (dropWhile (\<lambda>c. c \<noteq> chr_comma) s)) # segs"
    by blast
  with assms(1,2) show ?thesis by (simp add: extractBase64FromDataUrl_def)
qed

lemma extract_raw:
  "s \<noteq> [] \<Longrightarrow> \<not> startsWith s (js ''data:'') \<Longrightarrow>
     extractBase64FromDataUrl be (Some s) = Inr (Some (bufferFromBase64 be s))"
  by (simp add: extractBase64FromDataUrl_def)

lemmas stub_codec_defs = stub_backend_def b64_decode_def b64_value_def low_byte_def b64_alphabet_def
  png_signature_def js_def

lemma stub_extract_png:
  "extractBase64FromDataUrl stub_backend (Some (js ''data:image/png;base64,iVBORw0KGgo=''))
     = Inr (Some png_signature)"
  by (simp add: extractBase64FromDataUrl_def startsWith_def chr_comma_def stub_codec_defs)

lemma stub_extract_raw:
  "extractBase64FromDataUrl stub_backend (Some (js ''iVBORw0KGgo='')) = Inr (Some png_signature)"
  by (simp add: extractBase64FromDataUrl_def startsWith_def chr_comma_def stub_codec_defs)

lemma stub_extract_no_comma:
  "extractBase64FromDataUrl stub_backend (Some (js ''data:image/png;base64'')) = Inl TypeError"
  by (simp add: extractBase64FromDataUrl_def startsWith_def chr_comma_def js_def)

lemma stub_garbage:
  "extractBase64FromDataUrl stub_backend (Some (js ''not an image''))
     = Inr (Some [0x9E, 0x8B, 0x5A, 0x9E, 0x29, 0x9A, 0x81])"
  by (simp add: extractBase64FromDataUrl_def startsWith_def chr_comma_def stub_codec_defs)

lemma stub_garbage_resize:
  "resizeCoverPng stub_backend [0x9E, 0x8B, 0x5A, 0x9E, 0x29, 0x9A, 0x81] artworkSize artworkSize
     = Inl SharpError"
  by (simp add: stub_backend_def png_signature_def)

text \<open>
  C10, as the source has it. The extractor returns \<open>null\<close> exactly for a \<open>null\<close> or
  empty argument. For a non-empty string that starts with \<open>data:\<close>: without a comma the
  call throws; with a comma, the text between the first comma and the next one is decoded,
  which is all the text after the first comma when there is no second comma. Any other
  non-empty string is decoded whole.
\<close>

theorem extractBase64_cases:
  "(extractBase64FromDataUrl be d = Inr None \<longleftrightarrow> d = None \<or> d = Some [])
   \<and> (s \<noteq> [] \<and> startsWith s (js ''data:'') \<and> chr_comma \<notin> set s \<longrightarrow>
        extractBase64FromDataUrl be (Some s) = Inl TypeError)
   \<and> (s \<noteq> [] \<and> startsWith s (js ''data:'') \<and> chr_comma \<in> set s \<longrightarrow>
        extractBase64FromDataUrl be (Some s) =
          Inr (Some (bufferFromBase64 be
            (takeWhile (\<lambda>c. c \<noteq> chr_comma) (tl (dropWhile (\<lambda>c. c \<noteq> chr_comma) s))))))
   \<and> (s \<noteq> [] \<and> startsWith s (js ''data:'') \<and> chr_comma \<in> set s
        \<and> chr_comma \<notin> set (tl (dropWhile (\<lambda>c. c \<noteq> chr_comma) s)) \<longrightarrow>
        extractBase64FromDataUrl be (Some s) =
          Inr (Some (bufferFromBase64 be (tl (dropWhile (\<lambda>c. c \<noteq> chr_comma) s)))))
   \<and> (s \<noteq> [] \<and> \<not> startsWith s (js ''data:'') \<longrightarrow>
        extractBase64FromDataUrl be (Some s) = Inr (Some (bufferFromBase64 be s)))"
proof (intro conjI impI)
  show "extractBase64FromDataUrl be d = Inr None \<longleftrightarrow> d = None \<or> d = Some []"
    by (rule extract_null)
next
  assume "s \<noteq> [] \<and> startsWith s (js ''data:'') \<and> chr_comma \<notin> set s"
  then show "extractBase64FromDataUrl be (Some s) = Inl TypeError"
    by (simp add: extract_no_comma)
next
  assume "s \<noteq> [] \<and> startsWith s (js ''data:'') \<and> chr_comma \<in> set s"
  then show "extractBase64FromDataUrl be (Some s) =
      Inr (Some (bufferFromBase64 be
        (takeWhile (\<lambda>c. c \<noteq> chr_comma) (tl (dropWhile (\<lambda>c. c \<noteq> chr_comma) s)))))"
    by (simp add: extract_comma)
next
  assume "s \<noteq> [] \<and> startsWith s (js ''data:'') \<and> chr_comma \<in> set s
        \<and> chr_comma \<notin> set (tl (dropWhile (\<lambda>c. c \<noteq> chr_comma) s))"
  then show "extractBase64FromDataUrl be (Some s) =
      Inr (Some (bufferFromBase64 be (tl (dropWhile (\<lambda>c. c \<noteq> chr_comma) s))))"
    by (simp add: extract_comma takeWhile_all)
next
  assume "s \<noteq> [] \<and> \<not> startsWith s (js ''data:'')"
  then show "extractBase64FromDataUrl be (Some s) = Inr (Some (bufferFromBase64 be s))"
    by (simp add: extract_raw)
qed

theorem extractBase64_cases_witness:
  "js ''data:image/png;base64,iVBORw0KGgo='' \<noteq> []
   \<and> startsWith (js ''data:image/png;base64,iVBORw0KGgo='') (js ''data:'')
   \<and> chr_comma \<in> set (js ''data:image/png;base64,iVBORw0KGgo='')
   \<and> tl (dropWhile (\<lambda>c. c \<noteq> chr_comma) (js ''data:image/png;base64,iVBORw0KGgo=''))
       = js ''iVBORw0KGgo=''
   \<and> extractBase64FromDataUrl stub_backend (Some (js ''data:image/png;base64,iVBORw0KGgo=''))
       = Inr (Some (bufferFromBase64 stub_backend (js ''iVBORw0KGgo='')))
   \<and> bufferFromBase64 stub_backend (js ''iVBORw0KGgo='') = png_signature
   \<and> startsWith (js ''data:image/png;base64'') (js ''data:'')
   \<and> chr_comma \<notin> set (js ''data:image/png;base64'')
   \<and> extractBase64FromDataUrl stub_backend (Some (js ''data:image/png;base64'')) = Inl TypeError
   \<and> \<not> startsWith (js ''iVBORw0KGgo='') (js ''data:'')
   \<and> extractBase64FromDataUrl stub_backend (Some (js ''iVBORw0KGgo=''))
       = Inr (Some (bufferFromBase64 stub_backend (js ''iVBORw0KGgo='')))
   \<and> extractBase64FromDataUrl stub_backend (Some []) = Inr None"
proof -
  have h: "js ''data:image/png;base64,iVBORw0KGgo='' \<noteq> []"
    "startsWith (js ''data:image/png;base64,iVBORw0KGgo='') (js ''data:'')"
    "chr_comma \<in> set (js ''data:image/png;base64,iVBORw0KGgo='')"
    "tl (dropWhile (\<lambda>c. c \<noteq> chr_comma) (js ''data:image/png;base64,iVBORw0KGgo=''))
       = js ''iVBORw0KGgo=''"
    "chr_comma \<notin> set (js ''iVBORw0KGgo='')"
    "js ''data:image/png;base64'' \<noteq> []"
    "startsWith (js ''data:image/png;base64'') (js ''data:'')"
    "chr_comma \<notin> set (js ''data:image/png;base64'')"
    "js ''iVBORw0KGgo='' \<noteq> []"
    "\<not> startsWith (js ''iVBORw0KGgo='') (js ''data:'')"
    by (simp_all add: startsWith_def js_def chr_comma_def)
  have b: "bufferFromBase64 stub_backend (js ''iVBORw0KGgo='') = png_signature"
    by (simp add: stub_codec_defs)
  from h b show ?thesis
    using extractBase64_cases [of stub_backend "Some []" "js ''data:image/png;base64,iVBORw0KGgo=''"]
      extractBase64_cases [of stub_backend "Some []" "js ''data:image/png;base64''"]
      extractBase64_cases [of stub_backend "Some []" "js ''iVBORw0KGgo=''"]
    by (simp add: takeWhile_all)
qed

text \<open>
  A \<open>data:\<close> text with two commas: the text after the first comma is \<open>AA,BB\<close>, which
  Node decodes to three bytes; the source decodes \<open>AA\<close>, one byte.
\<close>

theorem extractBase64_cases_counterexample:
  "js ''data:x,AA,BB'' = js ''data:x'' @ [chr_comma] @ js ''AA,BB''
   \<and> chr_comma \<notin> set (js ''data:x'')
   \<and> extractBase64FromDataUrl stub_backend (Some (js ''data:x,AA,BB'')) = Inr (Some [0])
   \<and> bufferFromBase64 stub_backend (js ''AA,BB'') = [0, 0, 65]
   \<and> bufferFromBase64 stub_backend (js ''AA'') = [0]
   \<and> extractBase64FromDataUrl stub_backend (Some (js ''data:x,AA,BB''))
       \<noteq> Inr (Some (bufferFromBase64 stub_backend (js ''AA,BB'')))"
  by (simp add: extractBase64FromDataUrl_def startsWith_def chr_comma_def stub_codec_defs)

subsection \<open>Layers, regions and results\<close>

lemma right_not_left: "js ''right'' \<noteq> js ''left''"
  by (simp add: js_def)

lemma crop_region_left:
  "crop_region (js ''left'') = \<lparr>ex_left = 0, ex_top = 0, ex_width = 200, ex_height = 100\<rparr>"
  by (simp add: crop_region_def dialWidth_def lcdHeight_def)

lemma crop_region_other:
  "p \<noteq> js ''left'' \<Longrightarrow>
     crop_region p = \<lparr>ex_left = 200, ex_top = 0, ex_width = 200, ex_height = 100\<rparr>"
  by (simp add: crop_region_def dialWidth_def lcdHeight_def)

lemma fallbackSvg_other:
  \<open>p \<noteq> js ''left'' \<Longrightarrow> fallbackSvg p =
     js ''\<newline>    <svg width="200" height="100" xmlns="http://www.w3.org/2000/svg">\<newline>      <rect width="200" height="100" fill="black"/>\<newline>      <text x="100" y="55" font-family="Arial" font-size="14" fill="#666666" text-anchor="middle">\<newline>        No Track\<newline>      </text>\<newline>    </svg>\<newline>    ''\<close>
  by (simp add: fallbackSvg_def fallback_message_def js_def)

lemma fallbackSvg_left:
  \<open>fallbackSvg (js ''left'') =
     js ''\<newline>    <svg width="200" height="100" xmlns="http://www.w3.org/2000/svg">\<newline>      <rect width="200" height="100" fill="black"/>\<newline>      <text x="100" y="55" font-family="Arial" font-size="40" fill="#666666" text-anchor="middle">\<newline>        ''
     @ [0xE2, 0x2122, 0xAA]
     @ js ''\<newline>      </text>\<newline>    </svg>\<newline>    ''\<close>
  by (simp add: fallbackSvg_def fallback_message_def js_def)

lemma art_layers_shape:
  "art_layers be t = [] \<or> (\<exists>b. art_layers be t = [\<lparr>input = b, left_px = 0, top_px = 0\<rparr>])"
  by (simp add: art_layers_def split: option.splits sum.splits)

lemma art_layers_none: "thumbnail t = None \<or> thumbnail t = Some [] \<Longrightarrow> art_layers be t = []"
  by (auto simp: art_layers_def)

lemma art_layers_decoded:
  "thumbnail t = Some th \<Longrightarrow> th \<noteq> [] \<Longrightarrow>
   extractBase64FromDataUrl be (Some th) = Inr (Some buf) \<Longrightarrow>
   resizeCoverPng be buf 100 100 = Inr art \<Longrightarrow>
     art_layers be t = [\<lparr>input = art, left_px = 0, top_px = 0\<rparr>]"
  by (simp add: art_layers_def artworkSize_def)

lemma composite_layers_eq:
  "composite_layers be t = art_layers be t
     @ [\<lparr>input = bufferFromString be (buildTextSvg t 284), left_px = 108, top_px = 0\<rparr>,
        \<lparr>input = bufferFromString be (createProgressBar (duration t) (position t) 276 108 75),
          left_px = 0, top_px = 0\<rparr>]"
  by (simp add: composite_layers_def Let_def padding_def fullWidth_def)

lemma blank_layers_eq:
  "blank_layers be =
     [\<lparr>input = bufferFromString be darkArtSvg, left_px = 0, top_px = 0\<rparr>,
      \<lparr>input = bufferFromString be (blankTextSvg 108 108 276), left_px = 0, top_px = 0\<rparr>]"
  by (simp add: blank_layers_def Let_def padding_def fullWidth_def)

lemma render_at:
  assumes "createCompositePng be 400 100 (composite_layers be t) = Inr canvas"
    and "extractPng be canvas (crop_region p) = Inr cropped"
  shows "render be (Some t) (Some p) = Inr (js ''data:image/png;base64,'' @ toBase64 be cropped)"
  using assms
  by (simp add: render_def render_try_def png_data_url_def position_or_left_def
      fullWidth_def lcdHeight_def)

lemma render_omitted: "render be t None = render be t (Some (js ''left''))"
  by (simp add: render_def position_or_left_def split: sum.splits)

lemma createBlank_at:
  assumes "createCompositePng be 400 100 (blank_layers be) = Inr canvas"
    and "extractPng be canvas (crop_region p) = Inr cropped"
  shows "createBlank be (Some p) = Inr (js ''data:image/png;base64,'' @ toBase64 be cropped)"
  using assms
  by (simp add: createBlank_def createBlank_try_def png_data_url_def position_or_left_def
      fullWidth_def lcdHeight_def)

lemma createBlank_omitted: "createBlank be None = createBlank be (Some (js ''left''))"
  by (simp add: createBlank_def position_or_left_def split: sum.splits)

lemma createFallback_at:
  assumes "toPng be (bufferFromString be (fallbackSvg p)) = Inr png"
  shows "createFallback be (Some p) = Inr (js ''data:image/png;base64,'' @ toBase64 be png)"
  using assms by (simp add: createFallback_def png_data_url_def position_or_left_def)

lemma createFallback_omitted: "createFallback be None = createFallback be (Some (js ''left''))"
  by (simp add: createFallback_def position_or_left_def)

lemma createFallback_other:
  "p \<noteq> js ''left'' \<Longrightarrow> createFallback be (Some p) = createFallback be (Some (js ''right''))"
  using fallbackSvg_other [of p] fallbackSvg_other [of "js ''right''"] right_not_left
  by (simp add: createFallback_def position_or_left_def)

lemma render_try_other:
  "p \<noteq> js ''left'' \<Longrightarrow> render_try be t p = render_try be t (js ''right'')"
  using crop_region_other [of p] crop_region_other [of "js ''right''"] right_not_left
  by (simp add: render_try_def split: option.splits sum.splits)

lemma render_other:
  "p \<noteq> js ''left'' \<Longrightarrow> render be t (Some p) = render be t (Some (js ''right''))"
  by (simp add: render_def position_or_left_def render_try_other createFallback_other
      split: sum.splits)

lemma createBlank_other:
  "p \<noteq> js ''left'' \<Longrightarrow> createBlank be (Some p) = createBlank be (Some (js ''right''))"
  using crop_region_other [of p] crop_region_other [of "js ''right''"] right_not_left
  by (simp add: createBlank_def createBlank_try_def position_or_left_def split: sum.splits)

lemma createFallback_data_url:
  "createFallback be pos = Inr img \<Longrightarrow> startsWith img (js ''data:image/png;base64,'')"
  by (auto simp: createFallback_def png_data_url_def startsWith_def length_js split: sum.splits)

lemma render_data_url:
  "render be t pos = Inr img \<Longrightarrow> startsWith img (js ''data:image/png;base64,'')"
proof (cases "render_try be t (position_or_left pos)")
  case (Inl e)
  assume "render be t pos = Inr img"
  with Inl have "createFallback be (Some (position_or_left pos)) = Inr img"
    by (simp add: render_def)
  then show ?thesis by (rule createFallback_data_url)
next
  case (Inr x)
  assume "render be t pos = Inr img"
  with Inr have "render_try be t (position_or_left pos) = Inr img"
    by (simp add: render_def)
  then show ?thesis
    by (auto simp: render_try_def png_data_url_def startsWith_def length_js
        split: option.splits sum.splits)
qed

subsection \<open>The sample runtime at work\<close>

lemma stub_resize_png:
  "resizeCoverPng stub_backend png_signature 100 100 = Inr (png_signature @ [100, 100])"
  by (simp add: stub_backend_def png_signature_def)

lemma stub_composite_any:
  "createCompositePng stub_backend 400 100 ls = Inr (png_signature @ [200, 100, of_nat (length ls)])"
  by (simp add: stub_backend_def)

lemma stub_extract_at_0:
  "extractPng stub_backend (png_signature @ ys)
      \<lparr>ex_left = 0, ex_top = 0, ex_width = 200, ex_height = 100\<rparr>
     = Inr (png_signature @ [0, 200, 100])"
  by (simp add: stub_backend_def png_signature_def)

lemma stub_extract_at_200:
  "extractPng stub_backend (png_signature @ ys)
      \<lparr>ex_left = 200, ex_top = 0, ex_width = 200, ex_height = 100\<rparr>
     = Inr (png_signature @ [200, 200, 100])"
  by (simp add: stub_backend_def png_signature_def)

lemma stub_b64_left:
  "js ''data:image/png;base64,'' @ toBase64 stub_backend (png_signature @ [0, 200, 100])
     = js ''data:image/png;base64,iVBORw0KGgoAyGQ=''"
  by (simp add: stub_backend_def png_signature_def b64_alphabet_def js_def)

lemma stub_b64_right:
  "js ''data:image/png;base64,'' @ toBase64 stub_backend (png_signature @ [200, 200, 100])
     = js ''data:image/png;base64,iVBORw0KGgrIyGQ=''"
  by (simp add: stub_backend_def png_signature_def b64_alphabet_def js_def)

lemma stub_fallback_left:
  "toPng stub_backend (bufferFromString stub_backend (fallbackSvg (js ''left'')))
     = Inr (png_signature @ [0x0B])"
  by (simp add: stub_backend_def fallbackSvg_def fallback_message_def utf8_of_code_point_def is_high_surrogate_def is_low_surrogate_def js_def)

lemma stub_fallback_right:
  "toPng stub_backend (bufferFromString stub_backend (fallbackSvg (js ''right'')))
     = Inr (png_signature @ [0x0C])"
  by (simp add: stub_backend_def fallbackSvg_def fallback_message_def utf8_of_code_point_def is_high_surrogate_def is_low_surrogate_def js_def)


lemma stub_b64_fallback_left:
  "js ''data:image/png;base64,'' @ toBase64 stub_backend (png_signature @ [0x0B])
     = js ''data:image/png;base64,iVBORw0KGgoL''"
  by (simp add: stub_backend_def png_signature_def b64_alphabet_def js_def)

lemma stub_b64_fallback_right:
  "js ''data:image/png;base64,'' @ toBase64 stub_backend (png_signature @ [0x0C])
     = js ''data:image/png;base64,iVBORw0KGgoM''"
  by (simp add: stub_backend_def png_signature_def b64_alphabet_def js_def)

subsection \<open>The position argument\<close>

text \<open>
  C9. A position that is not the string \<open>left\<close> is treated as \<open>right\<close> by the three
  entry points. \<open>render\<close> and \<open>createBlank\<close> extract from their canvas the region that
  starts at 200, the midpoint, and return its PNG; \<open>createFallback\<close> returns the PNG of
  the markup with the label \<open>No Track\<close> in size 14; each returns what it returns for
  \<open>right\<close>. With the position omitted the three return what they return for \<open>left\<close>:
  the region that starts at 0, and the markup with the note sign in size 40.
\<close>

theorem position_other_than_left:
  \<open>p \<noteq> js ''left'' \<Longrightarrow>
     (createCompositePng be 400 100 (composite_layers be t) = Inr canvas
        \<and> extractPng be canvas \<lparr>ex_left = 200, ex_top = 0, ex_width = 200, ex_height = 100\<rparr>
            = Inr cropped \<longrightarrow>
          render be (Some t) (Some p) = Inr (js ''data:image/png;base64,'' @ toBase64 be cropped))
     \<and> (createCompositePng be 400 100 (blank_layers be) = Inr canvas'
        \<and> extractPng be canvas' \<lparr>ex_left = 200, ex_top = 0, ex_width = 200, ex_height = 100\<rparr>
            = Inr cropped' \<longrightarrow>
          createBlank be (Some p) = Inr (js ''data:image/png;base64,'' @ toBase64 be cropped'))
     \<and> (toPng be (bufferFromString be (js ''\<newline>    <svg width="200" height="100" xmlns="http://www.w3.org/2000/svg">\<newline>      <rect width="200" height="100" fill="black"/>\<newline>      <text x="100" y="55" font-family="Arial" font-size="14" fill="#666666" text-anchor="middle">\<newline>        No Track\<newline>      </text>\<newline>    </svg>\<newline>    ''))
            = Inr png \<longrightarrow>
          createFallback be (Some p) = Inr (js ''data:image/png;base64,'' @ toBase64 be png))
     \<and> render be t' (Some p) = render be t' (Some (js ''right''))
     \<and> createBlank be (Some p) = createBlank be (Some (js ''right''))
     \<and> createFallback be (Some p) = createFallback be (Some (js ''right''))
     \<and> (createCompositePng be 400 100 (composite_layers be t) = Inr canvas
        \<and> extractPng be canvas \<lparr>ex_left = 0, ex_top = 0, ex_width = 200, ex_height = 100\<rparr>
            = Inr cropped0 \<longrightarrow>
          render be (Some t) None = Inr (js ''data:image/png;base64,'' @ toBase64 be cropped0))
     \<and> (createCompositePng be 400 100 (blank_layers be) = Inr canvas'
        \<and> extractPng be canvas' \<lparr>ex_left = 0, ex_top = 0, ex_width = 200, ex_height = 100\<rparr>
            = Inr cropped0' \<longrightarrow>
          createBlank be None = Inr (js ''data:image/png;base64,'' @ toBase64 be cropped0'))
     \<and> (toPng be (bufferFromString be (js ''\<newline>    <svg width="200" height="100" xmlns="http://www.w3.org/2000/svg">\<newline>      <rect width="200" height="100" fill="black"/>\<newline>      <text x="100" y="55" font-family="Arial" font-size="40" fill="#666666" text-anchor="middle">\<newline>        ''
              @ [0xE2, 0x2122, 0xAA]
              @ js ''\<newline>      </text>\<newline>    </svg>\<newline>    ''))
            = Inr png0 \<longrightarrow>
          createFallback be None = Inr (js ''data:image/png;base64,'' @ toBase64 be png0))
     \<and> render be t' None = render be t' (Some (js ''left''))
     \<and> createBlank be None = createBlank be (Some (js ''left''))
     \<and> createFallback be None = createFallback be (Some (js ''left''))\<close>
proof (intro conjI impI)
  assume n: "p \<noteq> js ''left''"
  {
    assume "createCompositePng be 400 100 (composite_layers be t) = Inr canvas
        \<and> extractPng be canvas \<lparr>ex_left = 200, ex_top = 0, ex_width = 200, ex_height = 100\<rparr>
            = Inr cropped"
    then show "render be (Some t) (Some p) = Inr (js ''data:image/png;base64,'' @ toBase64 be cropped)"
      using render_at [of be t canvas p cropped] crop_region_other [OF n] by simp
  }
  {
    assume "createCompositePng be 400 100 (blank_layers be) = Inr canvas'
        \<and> extractPng be canvas' \<lparr>ex_left = 200, ex_top = 0, ex_width = 200, ex_height = 100\<rparr>
            = Inr cropped'"
    then show "createBlank be (Some p) = Inr (js ''data:image/png;base64,'' @ toBase64 be cropped')"
      using createBlank_at [of be canvas' p cropped'] crop_region_other [OF n] by simp
  }
  {
    assume \<open>toPng be (bufferFromString be (js ''\<newline>    <svg width="200" height="100" xmlns="http://www.w3.org/2000/svg">\<newline>      <rect width="200" height="100" fill="black"/>\<newline>      <text x="100" y="55" font-family="Arial" font-size="14" fill="#666666" text-anchor="middle">\<newline>        No Track\<newline>      </text>\<newline>    </svg>\<newline>    ''))
            = Inr png\<close>
    then show "createFallback be (Some p) = Inr (js ''data:image/png;base64,'' @ toBase64 be png)"
      using createFallback_at [of be p png] by (simp only: fallbackSvg_other [OF n])
  }
  show "render be t' (Some p) = render be t' (Some (js ''right''))"
    using n by (rule render_other)
  show "createBlank be (Some p) = createBlank be (Some (js ''right''))"
    using n by (rule createBlank_other)
  show "createFallback be (Some p) = createFallback be (Some (js ''right''))"
    using n by (rule createFallback_other)
  {
    assume "createCompositePng be 400 100 (composite_layers be t) = Inr canvas
        \<and> extractPng be canvas \<lparr>ex_left = 0, ex_top = 0, ex_width = 200, ex_height = 100\<rparr>
            = Inr cropped0"
    then show "render be (Some t) None = Inr (js ''data:image/png;base64,'' @ toBase64 be cropped0)"
      using render_at [of be t canvas "js ''left''" cropped0]
      by (simp add: render_omitted crop_region_left)
  }
  {
    assume "createCompositePng be 400 100 (blank_layers be) = Inr canvas'
        \<and> extractPng be canvas' \<lparr>ex_left = 0, ex_top = 0, ex_width = 200, ex_height = 100\<rparr>
            = Inr cropped0'"
    then show "createBlank be None = Inr (js ''data:image/png;base64,'' @ toBase64 be cropped0')"
      using createBlank_at [of be canvas' "js ''left''" cropped0']
      by (simp add: createBlank_omitted crop_region_left)
  }
  {
    assume \<open>toPng be (bufferFromString be (js ''\<newline>    <svg width="200" height="100" xmlns="http://www.w3.org/2000/svg">\<newline>      <rect width="200" height="100" fill="black"/>\<newline>      <text x="100" y="55" font-family="Arial" font-size="40" fill="#666666" text-anchor="middle">\<newline>        ''
              @ [0xE2, 0x2122, 0xAA]
              @ js ''\<newline>      </text>\<newline>    </svg>\<newline>    ''))
            = Inr png0\<close>
    then show "createFallback be None = Inr (js ''data:image/png;base64,'' @ toBase64 be png0)"
      using createFallback_at [of be "js ''left''" png0]
      by (simp only: fallbackSvg_left createFallback_omitted)
  }
  show "render be t' None = render be t' (Some (js ''left''))"
    by (rule render_omitted)
  show "createBlank be None = createBlank be (Some (js ''left''))"
    by (rule createBlank_omitted)
  show "createFallback be None = createFallback be (Some (js ''left''))"
    by (rule createFallback_omitted)
qed

lemma stub_composite_test:
  "createCompositePng stub_backend 400 100 (composite_layers stub_backend testTrackInfo)
     = Inr (png_signature @ [200, 100, 2])"
proof -
  have "thumbnail testTrackInfo = None" by (simp add: testTrackInfo_def)
  then have "length (composite_layers stub_backend testTrackInfo) = 2"
    by (simp add: composite_layers_eq art_layers_none)
  then show ?thesis by (simp add: stub_composite_any)
qed

lemma stub_composite_blank:
  "createCompositePng stub_backend 400 100 (blank_layers stub_backend)
     = Inr (png_signature @ [200, 100, 2])"
  by (simp add: stub_composite_any blank_layers_eq)

theorem position_other_than_left_witness:
  \<open>js ''lfet'' \<noteq> js ''left''
   \<and> createCompositePng stub_backend 400 100 (composite_layers stub_backend testTrackInfo)
       = Inr (png_signature @ [200, 100, 2])
   \<and> extractPng stub_backend (png_signature @ [200, 100, 2])
         \<lparr>ex_left = 200, ex_top = 0, ex_width = 200, ex_height = 100\<rparr>
       = Inr (png_signature @ [200, 200, 100])
   \<and> extractPng stub_backend (png_signature @ [200, 100, 2])
         \<lparr>ex_left = 0, ex_top = 0, ex_width = 200, ex_height = 100\<rparr>
       = Inr (png_signature @ [0, 200, 100])
   \<and> render stub_backend (Some testTrackInfo) (Some (js ''lfet''))
       = Inr (js ''data:image/png;base64,iVBORw0KGgrIyGQ='')
   \<and> render stub_backend (Some testTrackInfo) None
       = Inr (js ''data:image/png;base64,iVBORw0KGgoAyGQ='')
   \<and> createBlank stub_backend (Some (js ''lfet''))
       = Inr (js ''data:image/png;base64,iVBORw0KGgrIyGQ='')
   \<and> createBlank stub_backend None = Inr (js ''data:image/png;base64,iVBORw0KGgoAyGQ='')
   \<and> createFallback stub_backend (Some (js ''lfet''))
       = Inr (js ''data:image/png;base64,iVBORw0KGgoM'')
   \<and> createFallback stub_backend None = Inr (js ''data:image/png;base64,iVBORw0KGgoL'')\<close>
proof -
  have n: "js ''lfet'' \<noteq> js ''left''" by (simp add: js_def)
  have fr: \<open>toPng stub_backend (bufferFromString stub_backend (js ''\<newline>    <svg width="200" height="100" xmlns="http://www.w3.org/2000/svg">\<newline>      <rect width="200" height="100" fill="black"/>\<newline>      <text x="100" y="55" font-family="Arial" font-size="14" fill="#666666" text-anchor="middle">\<newline>        No Track\<newline>      </text>\<newline>    </svg>\<newline>    ''))
      = Inr (png_signature @ [0x0C])\<close>
    using stub_fallback_right by (simp only: fallbackSvg_other [OF right_not_left])
  have fl: \<open>toPng stub_backend (bufferFromString stub_backend (js ''\<newline>    <svg width="200" height="100" xmlns="http://www.w3.org/2000/svg">\<newline>      <rect width="200" height="100" fill="black"/>\<newline>      <text x="100" y="55" font-family="Arial" font-size="40" fill="#666666" text-anchor="middle">\<newline>        ''
              @ [0xE2, 0x2122, 0xAA]
              @ js ''\<newline>      </text>\<newline>    </svg>\<newline>    ''))
      = Inr (png_signature @ [0x0B])\<close>
    using stub_fallback_left by (simp only: fallbackSvg_left)
  note w = position_other_than_left [OF n, where be = stub_backend and t = testTrackInfo
      and canvas = "png_signature @ [200, 100, 2]" and cropped = "png_signature @ [200, 200, 100]"
      and canvas' = "png_signature @ [200, 100, 2]" and cropped' = "png_signature @ [200, 200, 100]"
      and png = "png_signature @ [0x0C]" and t' = "Some testTrackInfo"
      and ?cropped0.0 = "png_signature @ [0, 200, 100]"
      and cropped0' = "png_signature @ [0, 200, 100]" and ?png0.0 = "png_signature @ [0x0B]"]
  from w stub_composite_test stub_composite_blank stub_extract_at_200 stub_extract_at_0 fr fl
  have "render stub_backend (Some testTrackInfo) (Some (js ''lfet''))
        = Inr (js ''data:image/png;base64,'' @ toBase64 stub_backend (png_signature @ [200, 200, 100]))"
    and "render stub_backend (Some testTrackInfo) None
        = Inr (js ''data:image/png;base64,'' @ toBase64 stub_backend (png_signature @ [0, 200, 100]))"
    and "createBlank stub_backend (Some (js ''lfet''))
        = Inr (js ''data:image/png;base64,'' @ toBase64 stub_backend (png_signature @ [200, 200, 100]))"
    and "createBlank stub_backend None
        = Inr (js ''data:image/png;base64,'' @ toBase64 stub_backend (png_signature @ [0, 200, 100]))"
    and "createFallback stub_backend (Some (js ''lfet''))
        = Inr (js ''data:image/png;base64,'' @ toBase64 stub_backend (png_signature @ [0x0C]))"
    and "createFallback stub_backend None
        = Inr (js ''data:image/png;base64,'' @ toBase64 stub_backend (png_signature @ [0x0B]))"
    by blast+
  then show ?thesis
    using n stub_composite_test stub_extract_at_200 [of "[200, 100, 2]"]
      stub_extract_at_0 [of "[200, 100, 2]"]
    by (simp only: stub_b64_left stub_b64_right stub_b64_fallback_left stub_b64_fallback_right
        simp_thms)
qed

subsection \<open>Composition and extraction\<close>

text \<open>
  C8. The layers that \<open>render\<close> composites are the artwork, resized to 100 by 100 and
  placed at the left edge, when the thumbnail decodes (none without a thumbnail), then
  the text at 108, then the bar overlay. When the two calls of the image library succeed,
  \<open>render\<close> creates one canvas of 400 by 100 from these layers, extracts from it the
  region 200 wide and 100 high that starts at 0 for \<open>left\<close> and at 200, the midpoint,
  for \<open>right\<close>, and returns the PNG of that region as \<open>data:image/png;base64,\<close>
  followed by its base64 text. Whatever \<open>render\<close> returns starts with
  \<open>data:image/png;base64,\<close>.
\<close>

theorem render_extracts_half:
  "(thumbnail t = None \<or> thumbnail t = Some [] \<longrightarrow>
      composite_layers be t =
        [\<lparr>input = bufferFromString be (buildTextSvg t 284), left_px = 108, top_px = 0\<rparr>,
         \<lparr>input = bufferFromString be (createProgressBar (duration t) (position t) 276 108 75),
           left_px = 0, top_px = 0\<rparr>])
   \<and> (thumbnail t = Some th \<and> th \<noteq> []
        \<and> extractBase64FromDataUrl be (Some th) = Inr (Some buf)
        \<and> resizeCoverPng be buf 100 100 = Inr art \<longrightarrow>
      composite_layers be t =
        [\<lparr>input = art, left_px = 0, top_px = 0\<rparr>,
         \<lparr>input = bufferFromString be (buildTextSvg t 284), left_px = 108, top_px = 0\<rparr>,
         \<lparr>input = bufferFromString be (createProgressBar (duration t) (position t) 276 108 75),
           left_px = 0, top_px = 0\<rparr>])
   \<and> (createCompositePng be 400 100 (composite_layers be t) = Inr canvas
        \<and> extractPng be canvas \<lparr>ex_left = 0, ex_top = 0, ex_width = 200, ex_height = 100\<rparr>
            = Inr cropped \<longrightarrow>
      render be (Some t) (Some (js ''left''))
        = Inr (js ''data:image/png;base64,'' @ toBase64 be cropped))
   \<and> (createCompositePng be 400 100 (composite_layers be t) = Inr canvas
        \<and> extractPng be canvas \<lparr>ex_left = 200, ex_top = 0, ex_width = 200, ex_height = 100\<rparr>
            = Inr cropped' \<longrightarrow>
      render be (Some t) (Some (js ''right''))
        = Inr (js ''data:image/png;base64,'' @ toBase64 be cropped'))
   \<and> (render be t' pos = Inr img \<longrightarrow> startsWith img (js ''data:image/png;base64,''))"
proof (intro conjI impI)
  assume "thumbnail t = None \<or> thumbnail t = Some []"
  then show "composite_layers be t =
        [\<lparr>input = bufferFromString be (buildTextSvg t 284), left_px = 108, top_px = 0\<rparr>,
         \<lparr>input = bufferFromString be (createProgressBar (duration t) (position t) 276 108 75),
           left_px = 0, top_px = 0\<rparr>]"
    by (simp add: composite_layers_eq art_layers_none)
next
  assume "thumbnail t = Some th \<and> th \<noteq> []
        \<and> extractBase64FromDataUrl be (Some th) = Inr (Some buf)
        \<and> resizeCoverPng be buf 100 100 = Inr art"
  then show "composite_layers be t =
        [\<lparr>input = art, left_px = 0, top_px = 0\<rparr>,
         \<lparr>input = bufferFromString be (buildTextSvg t 284), left_px = 108, top_px = 0\<rparr>,
         \<lparr>input = bufferFromString be (createProgressBar (duration t) (position t) 276 108 75),
           left_px = 0, top_px = 0\<rparr>]"
    using art_layers_decoded [of t th be buf art] by (simp add: composite_layers_eq)
next
  assume "createCompositePng be 400 100 (composite_layers be t) = Inr canvas
        \<and> extractPng be canvas \<lparr>ex_left = 0, ex_top = 0, ex_width = 200, ex_height = 100\<rparr>
            = Inr cropped"
  then show "render be (Some t) (Some (js ''left''))
        = Inr (js ''data:image/png;base64,'' @ toBase64 be cropped)"
    using render_at [of be t canvas "js ''left''" cropped] by (simp add: crop_region_left)
next
  assume "createCompositePng be 400 100 (composite_layers be t) = Inr canvas
        \<and> extractPng be canvas \<lparr>ex_left = 200, ex_top = 0, ex_width = 200, ex_height = 100\<rparr>
            = Inr cropped'"
  then show "render be (Some t) (Some (js ''right''))
        = Inr (js ''data:image/png;base64,'' @ toBase64 be cropped')"
    using render_at [of be t canvas "js ''right''" cropped'] crop_region_other [OF right_not_left]
    by simp
next
  assume "render be t' pos = Inr img"
  then show "startsWith img (js ''data:image/png;base64,'')"
    by (rule render_data_url)
qed

theorem render_extracts_half_witness:
  "thumbnail (testTrackInfo\<lparr>thumbnail := Some (js ''data:image/png;base64,iVBORw0KGgo='')\<rparr>)
     = Some (js ''data:image/png;base64,iVBORw0KGgo='')
   \<and> js ''data:image/png;base64,iVBORw0KGgo='' \<noteq> []
   \<and> extractBase64FromDataUrl stub_backend (Some (js ''data:image/png;base64,iVBORw0KGgo=''))
       = Inr (Some png_signature)
   \<and> resizeCoverPng stub_backend png_signature 100 100 = Inr (png_signature @ [100, 100])
   \<and> composite_layers stub_backend
        (testTrackInfo\<lparr>thumbnail := Some (js ''data:image/png;base64,iVBORw0KGgo='')\<rparr>) ! 0
       = \<lparr>input = png_signature @ [100, 100], left_px = 0, top_px = 0\<rparr>
   \<and> length (composite_layers stub_backend
        (testTrackInfo\<lparr>thumbnail := Some (js ''data:image/png;base64,iVBORw0KGgo='')\<rparr>)) = 3
   \<and> thumbnail testTrackInfo = None
   \<and> length (composite_layers stub_backend testTrackInfo) = 2
   \<and> createCompositePng stub_backend 400 100 (composite_layers stub_backend
        (testTrackInfo\<lparr>thumbnail := Some (js ''data:image/png;base64,iVBORw0KGgo='')\<rparr>))
       = Inr (png_signature @ [200, 100, 3])
   \<and> extractPng stub_backend (png_signature @ [200, 100, 3])
         \<lparr>ex_left = 0, ex_top = 0, ex_width = 200, ex_height = 100\<rparr>
       = Inr (png_signature @ [0, 200, 100])
   \<and> extractPng stub_backend (png_signature @ [200, 100, 3])
         \<lparr>ex_left = 200, ex_top = 0, ex_width = 200, ex_height = 100\<rparr>
       = Inr (png_signature @ [200, 200, 100])
   \<and> render stub_backend
        (Some (testTrackInfo\<lparr>thumbnail := Some (js ''data:image/png;base64,iVBORw0KGgo='')\<rparr>))
        (Some (js ''left''))
       = Inr (js ''data:image/png;base64,iVBORw0KGgoAyGQ='')
   \<and> render stub_backend
        (Some (testTrackInfo\<lparr>thumbnail := Some (js ''data:image/png;base64,iVBORw0KGgo='')\<rparr>))
        (Some (js ''right''))
       = Inr (js ''data:image/png;base64,iVBORw0KGgrIyGQ='')
   \<and> startsWith (js ''data:image/png;base64,iVBORw0KGgrIyGQ='') (js ''data:image/png;base64,'')"
proof -
  define t where "t = testTrackInfo\<lparr>thumbnail := Some (js ''data:image/png;base64,iVBORw0KGgo='')\<rparr>"
  have h: "thumbnail t = Some (js ''data:image/png;base64,iVBORw0KGgo='')"
    "js ''data:image/png;base64,iVBORw0KGgo='' \<noteq> []"
    "thumbnail testTrackInfo = None"
    by (simp_all add: t_def testTrackInfo_def js_def)
  note w = render_extracts_half [where t = t and th = "js ''data:image/png;base64,iVBORw0KGgo=''"
      and be = stub_backend and buf = png_signature and art = "png_signature @ [100, 100]"
      and canvas = "png_signature @ [200, 100, 3]" and cropped = "png_signature @ [0, 200, 100]"
      and cropped' = "png_signature @ [200, 200, 100]" and t' = "Some t"
      and pos = "Some (js ''right'')" and img = "js ''data:image/png;base64,iVBORw0KGgrIyGQ=''"]
  note v = render_extracts_half [where t = testTrackInfo and be = stub_backend]
  from w h stub_extract_png stub_resize_png
  have l: "composite_layers stub_backend t =
        [\<lparr>input = png_signature @ [100, 100], left_px = 0, top_px = 0\<rparr>,
         \<lparr>input = bufferFromString stub_backend (buildTextSvg t 284), left_px = 108, top_px = 0\<rparr>,
         \<lparr>input = bufferFromString stub_backend
             (createProgressBar (duration t) (position t) 276 108 75),
           left_px = 0, top_px = 0\<rparr>]"
    by blast
  then have l0: "composite_layers stub_backend t ! 0
      = \<lparr>input = png_signature @ [100, 100], left_px = 0, top_px = 0\<rparr>"
    and l3: "length (composite_layers stub_backend t) = 3"
    by simp_all
  from v h(3) have l2: "length (composite_layers stub_backend testTrackInfo) = 2"
    by simp
  have c: "createCompositePng stub_backend 400 100 (composite_layers stub_backend t)
      = Inr (png_signature @ [200, 100, 3])"
    by (simp add: stub_composite_any l3)
  from w c stub_extract_at_0 [of "[200, 100, 3]"] stub_extract_at_200 [of "[200, 100, 3]"]
  have r: "render stub_backend (Some t) (Some (js ''left''))
        = Inr (js ''data:image/png;base64,'' @ toBase64 stub_backend (png_signature @ [0, 200, 100]))"
    "render stub_backend (Some t) (Some (js ''right''))
        = Inr (js ''data:image/png;base64,'' @ toBase64 stub_backend (png_signature @ [200, 200, 100]))"
    by blast+
  then have r': "render stub_backend (Some t) (Some (js ''left''))
        = Inr (js ''data:image/png;base64,iVBORw0KGgoAyGQ='')"
    "render stub_backend (Some t) (Some (js ''right''))
        = Inr (js ''data:image/png;base64,iVBORw0KGgrIyGQ='')"
    by (simp_all only: stub_b64_left stub_b64_right)
  with w have s: "startsWith (js ''data:image/png;base64,iVBORw0KGgrIyGQ='') (js ''data:image/png;base64,'')"
    by blast
  from h l0 l3 l2 c r' s stub_extract_png stub_resize_png
    stub_extract_at_0 [of "[200, 100, 3]"] stub_extract_at_200 [of "[200, 100, 3]"]
  show ?thesis unfolding t_def by blast
qed

subsection \<open>Artwork that cannot be decoded\<close>

lemma art_failure:
  assumes "thumbnail t = Some th"
    and "extractBase64FromDataUrl be (Some th) = Inl e
      \<or> (\<exists>buf. extractBase64FromDataUrl be (Some th) = Inr (Some buf)
            \<and> resizeCoverPng be buf artworkSize artworkSize = Inl e)"
  shows "art_layers be t = []"
  using assms by (auto simp: art_layers_def)

lemma art_layers_no_thumbnail: "art_layers be (t\<lparr>thumbnail := None\<rparr>) = []"
  by (simp add: art_layers_def)

lemma text_without_thumbnail: "buildTextSvg (t\<lparr>thumbnail := None\<rparr>) w = buildTextSvg t w"
  by (simp add: buildTextSvg_def title_of_def artist_of_def)

lemma composite_without_art:
  "art_layers be t = [] \<Longrightarrow>
     composite_layers be t = composite_layers be (t\<lparr>thumbnail := None\<rparr>)"
  by (simp add: composite_layers_eq art_layers_no_thumbnail text_without_thumbnail)

lemma render_without_art:
  "art_layers be t = [] \<Longrightarrow>
     render be (Some t) pos = render be (Some (t\<lparr>thumbnail := None\<rparr>)) pos"
  by (simp add: render_def render_try_def composite_without_art [of be t])

text \<open>
  C4, as the source has it. When the extractor throws on the thumbnail, or the image
  library rejects the decoded bytes, the exception stays inside the artwork step: no
  artwork layer is composited, the list of layers is the text layer and the bar layer,
  the same as for the track without a thumbnail, and \<open>render\<close> returns what it returns
  for the track without a thumbnail.
\<close>

theorem art_failure_isolated:
  "thumbnail t = Some th \<Longrightarrow>
   extractBase64FromDataUrl be (Some th) = Inl e
     \<or> (\<exists>buf. extractBase64FromDataUrl be (Some th) = Inr (Some buf)
           \<and> resizeCoverPng be buf artworkSize artworkSize = Inl e) \<Longrightarrow>
     art_layers be t = []
     \<and> composite_layers be t =
         [\<lparr>input = bufferFromString be (buildTextSvg t 284), left_px = 108, top_px = 0\<rparr>,
          \<lparr>input = bufferFromString be (createProgressBar (duration t) (position t) 276 108 75),
            left_px = 0, top_px = 0\<rparr>]
     \<and> composite_layers be t = composite_layers be (t\<lparr>thumbnail := None\<rparr>)
     \<and> render be (Some t) pos = render be (Some (t\<lparr>thumbnail := None\<rparr>)) pos"
proof -
  assume "thumbnail t = Some th"
    and "extractBase64FromDataUrl be (Some th) = Inl e
     \<or> (\<exists>buf. extractBase64FromDataUrl be (Some th) = Inr (Some buf)
           \<and> resizeCoverPng be buf artworkSize artworkSize = Inl e)"
  then have a: "art_layers be t = []" by (rule art_failure)
  then show ?thesis
    using composite_layers_eq [of be t] composite_without_art [of be t]
      render_without_art [of be t pos]
    by simp
qed

theorem art_failure_isolated_witness:
  "thumbnail (testTrackInfo\<lparr>thumbnail := Some (js ''not an image'')\<rparr>) = Some (js ''not an image'')
   \<and> extractBase64FromDataUrl stub_backend (Some (js ''not an image''))
       = Inr (Some [0x9E, 0x8B, 0x5A, 0x9E, 0x29, 0x9A, 0x81])
   \<and> resizeCoverPng stub_backend [0x9E, 0x8B, 0x5A, 0x9E, 0x29, 0x9A, 0x81] artworkSize artworkSize
       = Inl SharpError
   \<and> art_layers stub_backend (testTrackInfo\<lparr>thumbnail := Some (js ''not an image'')\<rparr>) = []
   \<and> render stub_backend (Some (testTrackInfo\<lparr>thumbnail := Some (js ''not an image'')\<rparr>)) None
       = render stub_backend (Some testTrackInfo) None
   \<and> thumbnail (testTrackInfo\<lparr>thumbnail := Some (js ''data:image/png;base64'')\<rparr>)
       = Some (js ''data:image/png;base64'')
   \<and> extractBase64FromDataUrl stub_backend (Some (js ''data:image/png;base64'')) = Inl TypeError
   \<and> art_layers stub_backend (testTrackInfo\<lparr>thumbnail := Some (js ''data:image/png;base64'')\<rparr>) = []"
proof -
  have t: "thumbnail (testTrackInfo\<lparr>thumbnail := Some (js ''not an image'')\<rparr>)
      = Some (js ''not an image'')"
    "thumbnail (testTrackInfo\<lparr>thumbnail := Some (js ''data:image/png;base64'')\<rparr>)
      = Some (js ''data:image/png;base64'')"
    by simp_all
  have n: "testTrackInfo\<lparr>thumbnail := Some (js ''not an image''), thumbnail := None\<rparr> = testTrackInfo"
    by (simp add: testTrackInfo_def)
  have g: "extractBase64FromDataUrl stub_backend (Some (js ''not an image'')) = Inl SharpError
     \<or> (\<exists>buf. extractBase64FromDataUrl stub_backend (Some (js ''not an image'')) = Inr (Some buf)
           \<and> resizeCoverPng stub_backend buf artworkSize artworkSize = Inl SharpError)"
    using stub_garbage stub_garbage_resize by simp
  have c: "extractBase64FromDataUrl stub_backend (Some (js ''data:image/png;base64'')) = Inl TypeError
     \<or> (\<exists>buf. extractBase64FromDataUrl stub_backend (Some (js ''data:image/png;base64''))
             = Inr (Some buf)
           \<and> resizeCoverPng stub_backend buf artworkSize artworkSize = Inl TypeError)"
    using stub_extract_no_comma by simp
  from art_failure_isolated [OF t(1) g, of None] art_failure_isolated [OF t(2) c, of None]
  show ?thesis
    using t stub_garbage stub_garbage_resize stub_extract_no_comma unfolding n by blast
qed

text \<open>
  With a thumbnail that is not an image the layers are the text, placed at 108, and the
  bar overlay, whose rectangles start at 108: nothing is drawn over the artwork square,
  which keeps the black of the canvas.
\<close>

theorem art_failure_isolated_counterexample:
  \<open>composite_layers stub_backend (testTrackInfo\<lparr>thumbnail := Some (js ''not an image'')\<rparr>) =
      [\<lparr>input = bufferFromString stub_backend
           (buildTextSvg (testTrackInfo\<lparr>thumbnail := Some (js ''not an image'')\<rparr>) 284),
         left_px = 108, top_px = 0\<rparr>,
       \<lparr>input = bufferFromString stub_backend
           (createProgressBar (Some 244) (Some 122) 276 108 75),
         left_px = 0, top_px = 0\<rparr>]
   \<and> tags (createProgressBar (Some 244) (Some 122) 276 108 75) =
      [js ''<svg width="400" height="100" xmlns="http://www.w3.org/2000/svg">'',
       js ''<rect x="108" y="75" width="276" height="5" rx="1" fill="#404040"/>'',
       js ''<rect x="108" y="75" width="138" height="5" rx="1" fill="#1DB954"/>'',
       js ''</svg>'']
   \<and> tags (buildTextSvg (testTrackInfo\<lparr>thumbnail := Some (js ''not an image'')\<rparr>) 284) =
      [js ''<svg width="280" height="100" xmlns="http://www.w3.org/2000/svg">'',
       js ''<style>'', js ''</style>'',
       js ''<text x="0" y="27" class="title">'', js ''</text>'',
       js ''<text x="0" y="55" class="artist">'', js ''</text>'',
       js ''</svg>'']\<close>
proof -
  have a: "art_layers stub_backend (testTrackInfo\<lparr>thumbnail := Some (js ''not an image'')\<rparr>) = []"
    using art_failure [of "testTrackInfo\<lparr>thumbnail := Some (js ''not an image'')\<rparr>"
        "js ''not an image''" stub_backend SharpError]
      stub_garbage stub_garbage_resize
    by simp
  have d: "duration (testTrackInfo\<lparr>thumbnail := Some (js ''not an image'')\<rparr>) = Some 244"
    "position (testTrackInfo\<lparr>thumbnail := Some (js ''not an image'')\<rparr>) = Some 122"
    by (simp_all add: testTrackInfo_def)
  have w: "progressWidth 244 (Some 122) 276 = Whole 138"
    by (rule pw_244_122)
  have r: \<open>bar_rect 108 75 276 bgColor
        = js ''<rect x="108" y="75" width="276" height="5" rx="1" fill="#404040"/>''\<close>
    \<open>bar_rect 108 75 138 fillColor
        = js ''<rect x="108" y="75" width="138" height="5" rx="1" fill="#1DB954"/>''\<close>
    by (simp_all add: bar_rect_def bar_rect_text_def bgColor_def fillColor_def show_int_def
        digits.simps digit_def js_def)
  have b: \<open>tags (createProgressBar (Some 244) (Some 122) 276 108 75) =
      [js ''<svg width="400" height="100" xmlns="http://www.w3.org/2000/svg">'',
       js ''<rect x="108" y="75" width="276" height="5" rx="1" fill="#404040"/>'',
       js ''<rect x="108" y="75" width="138" height="5" rx="1" fill="#1DB954"/>'',
       js ''</svg>'']\<close>
    using tags_bar_duration [of 244 "Some 122" 276 108 75] by (simp add: w r)
  show ?thesis
    using composite_layers_eq [of stub_backend "testTrackInfo\<lparr>thumbnail := Some (js ''not an image'')\<rparr>"]
      tags_buildTextSvg [of "testTrackInfo\<lparr>thumbnail := Some (js ''not an image'')\<rparr>" 284]
    by (simp only: a d b append_Nil simp_thms)
qed

subsection \<open>The fallback\<close>








end
